theory Spec2Isabelle
  imports Complex_Main
begin

section \<open>Data model of \<open>dbinit/admin.sql\<close>\<close>

text \<open>
  Identifiers and timestamps. A \<open>UUID\<close> is only compared for equality and used as a sort
  key (\<open>ORDER BY up.user_id\<close>), a \<open>TIMESTAMPTZ\<close> only as a sort key, so both are natural
  numbers here. \<open>BIGINT\<close> and \<open>INT\<close> values are integers; where the source computes with a
  \<open>BIGINT\<close> the range check of the database is written out.
\<close>

type_synonym uuid = nat
type_synonym timestamptz = nat
type_synonym bigint = int

text \<open>\<open>CREATE TYPE users.special_role AS ENUM ('admin', 'teacher')\<close>\<close>

datatype special_role = Admin | Teacher

text \<open>\<open>users.special_roles\<close>, primary key \<open>(user_id, user_role)\<close>.\<close>

record special_roles_row =
  sr_user_id :: uuid
  sr_user_role :: special_role
  sr_granted_at :: timestamptz

text \<open>The columns of the external table \<open>auth.users\<close> that the file reads or writes.\<close>

record auth_user =
  au_id :: uuid
  au_email :: string
  au_created_at :: timestamptz
  au_raw_user_meta_data :: "(string \<times> string) list"
  au_banned_until :: "timestamptz option"
  au_is_super_admin :: bool

text \<open>
  The columns of \<open>depots.depots\<close>, \<open>depots.positions\<close> and \<open>depots.savings_plans\<close> that the
  file uses (the tables are created elsewhere).
\<close>

record depot =
  d_id :: bigint
  d_users :: "uuid list"
  d_cash :: bigint
  d_cash_start :: bigint

record position =
  pos_id :: bigint
  pos_depot_id :: bigint

text \<open>
  Modelled from the spec: the declaration of \<open>depots.transactions\<close> is not part of the
  file, which only reads \<open>id\<close> and \<open>depot_id\<close>; the spec gives every transaction a
  \<open>cash_delta\<close>, the amount by which it changes the cash of its depot.
\<close>

record transaction_row =
  t_id :: bigint
  t_depot_id :: bigint
  t_cash_delta :: int

text \<open>
  Modelled from the spec: the enum of \<open>depots.savings_plans.period\<close> is declared elsewhere;
  the spec lists the frequencies weekly, biweekly, monthly, quarterly and yearly.
\<close>

datatype period = Weekly | Biweekly | Monthly | Quarterly | Yearly

record savings_plan =
  sp_depot_id :: bigint
  sp_worth :: rat
  sp_period :: period

text \<open>\<open>depots.savings_plans_budget\<close>, primary key \<open>(depot_id)\<close>.\<close>

record budget_row =
  b_depot_id :: bigint
  b_budget :: int
  b_last_changed :: timestamptz

record db =
  auth_users :: "auth_user list"
  special_roles :: "special_roles_row list"
  depots :: "depot list"
  positions :: "position list"
  transactions :: "transaction_row list"
  savings_plans :: "savings_plan list"
  savings_plans_budget :: "budget_row list"

text \<open>
  What a function body sees of its caller: \<open>auth.uid()\<close>, which is \<open>NULL\<close> for an
  unauthenticated request, and the value of the SQL expression \<open>current_user\<close> where the
  body evaluates it. In a function that is not \<open>SECURITY DEFINER\<close> (\<open>grant_reward\<close>,
  \<open>change_budget\<close>) that is the role of the connection; in a \<open>SECURITY DEFINER\<close> function
  (\<open>grant_teacher\<close>, \<open>revoke_teacher\<close>, \<open>get_admin_overview\<close>, \<open>get_depot_overview\<close>) the
  database evaluates it to the owner of the function, whoever calls.
\<close>

record session =
  uid :: "uuid option"
  current_user :: string

text \<open>
  The session that the body of a \<open>SECURITY DEFINER\<close> function sees when a caller with
  session \<open>ctx\<close> calls it: \<open>auth.uid()\<close> is still the caller's, \<open>current_user\<close> is the owner
  of the function, the role that ran \<open>CREATE FUNCTION\<close>. The file does not say which role
  that is, so the owner is a parameter.
\<close>

definition security_definer :: "string \<Rightarrow> session \<Rightarrow> session" where
  "security_definer owner ctx = ctx\<lparr>current_user := owner\<rparr>"

text \<open>
  The errors the file can raise. \<open>Unauthorized\<close> is the gate's own
  \<open>RAISE EXCEPTION 'Unauthorized: Admin or Teacher role required'\<close>; the others are raised
  by the database: a primary-key conflict, a dangling reference, a row rejected by
  row-level security, and a \<open>BIGINT\<close> out of range. An error aborts the statement and
  nothing it did is kept.
\<close>

datatype error =
  Unauthorized
  | UniqueViolation
  | ForeignKeyViolation
  | RowSecurityViolation
  | NumericValueOutOfRange

definition commit :: "db \<Rightarrow> error + db \<Rightarrow> db" where
  "commit s r = (case r of Inl e \<Rightarrow> s | Inr s' \<Rightarrow> s')"

section \<open>The authorization gate\<close>

text \<open>\<open>users.has_role(required_role)\<close>\<close>

definition has_role :: "session \<Rightarrow> db \<Rightarrow> special_role \<Rightarrow> bool" where
  "has_role ctx s required_role =
     (case uid ctx of
        None \<Rightarrow> False
      | Some u \<Rightarrow> (\<exists>row \<in> set (special_roles s).
                    sr_user_id row = u \<and> sr_user_role row = required_role))"

text \<open>\<open>users.has_any_role(VARIADIC required_roles)\<close>\<close>

definition has_any_role :: "session \<Rightarrow> db \<Rightarrow> special_role list \<Rightarrow> bool" where
  "has_any_role ctx s required_roles =
     (case uid ctx of
        None \<Rightarrow> False
      | Some u \<Rightarrow> (\<exists>row \<in> set (special_roles s).
                    sr_user_id row = u \<and> sr_user_role row \<in> set required_roles))"

section \<open>Role API\<close>

text \<open>
  \<open>INSERT INTO users.special_roles (user_id, user_role) VALUES (...)\<close>: the primary key
  \<open>(user_id, user_role)\<close> and the reference to \<open>auth.users(id)\<close> are checked by the database.
\<close>

definition insert_special_role :: "db \<Rightarrow> special_roles_row \<Rightarrow> error + db" where
  "insert_special_role s row =
     (if \<exists>r \<in> set (special_roles s).
            sr_user_id r = sr_user_id row \<and> sr_user_role r = sr_user_role row
      then Inl UniqueViolation
      else if sr_user_id row \<notin> au_id ` set (auth_users s)
      then Inl ForeignKeyViolation
      else Inr (s\<lparr>special_roles := special_roles s @ [row]\<rparr>))"

text \<open>
  \<open>users.grant_teacher(p_user_id)\<close>; \<open>now\<close> is the \<open>NOW()\<close> that \<open>granted_at\<close> defaults to.
  The \<open>UPDATE auth.users SET is_super_admin = true\<close> of the source has no \<open>WHERE\<close> clause.
\<close>

definition grant_teacher :: "session \<Rightarrow> timestamptz \<Rightarrow> db \<Rightarrow> uuid \<Rightarrow> error + db" where
  "grant_teacher ctx now s p_user_id =
     (if \<not> (has_any_role ctx s [Admin, Teacher] \<or> current_user ctx = ''postgres'')
      then Inl Unauthorized
      else case insert_special_role s
                  \<lparr>sr_user_id = p_user_id, sr_user_role = Teacher, sr_granted_at = now\<rparr> of
             Inl e \<Rightarrow> Inl e
           | Inr s1 \<Rightarrow>
               Inr (s1\<lparr>auth_users :=
                         map (\<lambda>u. u\<lparr>au_is_super_admin := True\<rparr>) (auth_users s1)\<rparr>))"

text \<open>\<open>users.revoke_teacher(p_user_id)\<close>\<close>

definition revoke_teacher :: "session \<Rightarrow> db \<Rightarrow> uuid \<Rightarrow> error + db" where
  "revoke_teacher ctx s p_user_id =
     (if \<not> (has_any_role ctx s [Admin, Teacher] \<or> current_user ctx = ''postgres'')
      then Inl Unauthorized
      else Inr (s\<lparr>special_roles :=
                     filter (\<lambda>r. \<not> (sr_user_id r = p_user_id \<and> sr_user_role r = Teacher))
                       (special_roles s),
                   auth_users :=
                     map (\<lambda>u. if au_id u = p_user_id
                               then u\<lparr>au_is_super_admin := False\<rparr> else u)
                       (auth_users s)\<rparr>))"

section \<open>Mutation API\<close>

text \<open>
  \<open>depots.change_budget(p_depot_id, p_budget)\<close> has no gate of its own and is not
  \<open>SECURITY DEFINER\<close>: its \<open>INSERT ... ON CONFLICT (depot_id) DO UPDATE\<close> runs under the
  row-level security of \<open>depots.savings_plans_budget\<close>. The policies "Teachers can grant
  budget" (\<open>FOR INSERT WITH CHECK (users.has_role('teacher'))\<close>) and "Teachers can update
  all budgets" (\<open>FOR UPDATE USING (users.has_role('teacher'))\<close>) are the only ones for
  writing and are declared \<open>TO authenticated\<close>; a row they reject raises an error. A
  connection as \<open>postgres\<close>, the role that the gates of the file let through without a
  role, is taken to be exempt from row-level security. The row must reference an
  existing depot.
\<close>

definition budget_write_allowed :: "session \<Rightarrow> db \<Rightarrow> bool" where
  "budget_write_allowed ctx s =
     (current_user ctx = ''postgres''
      \<or> (current_user ctx = ''authenticated'' \<and> has_role ctx s Teacher))"

definition change_budget :: "session \<Rightarrow> timestamptz \<Rightarrow> db \<Rightarrow> bigint \<Rightarrow> int \<Rightarrow> error + db" where
  "change_budget ctx now s p_depot_id p_budget =
     (if \<not> budget_write_allowed ctx s then Inl RowSecurityViolation
      else if \<exists>b \<in> set (savings_plans_budget s). b_depot_id b = p_depot_id
      then Inr (s\<lparr>savings_plans_budget :=
                     map (\<lambda>b. if b_depot_id b = p_depot_id
                               then b\<lparr>b_budget := p_budget, b_last_changed := now\<rparr> else b)
                       (savings_plans_budget s)\<rparr>)
      else if p_depot_id \<notin> d_id ` set (depots s) then Inl ForeignKeyViolation
      else Inr (s\<lparr>savings_plans_budget :=
                     savings_plans_budget s @
                       [\<lparr>b_depot_id = p_depot_id, b_budget = p_budget,
                         b_last_changed = now\<rparr>]\<rparr>))"

text \<open>
  \<open>depots.grant_reward(p_depot_id, p_amount)\<close>. The gate asks for the teacher role only.
  A caller who passes it may update every depot: the policies "Teachers can view all
  Depots" and "Teachers can edit all Depots" admit a teacher, and \<open>postgres\<close> is not
  subject to them. \<open>d.cash + p_amount\<close> is a \<open>BIGINT\<close> sum, which the database refuses
  when it leaves the 64-bit range.
\<close>

definition bigint_ok :: "int \<Rightarrow> bool" where
  "bigint_ok x = (- (2 ^ 63) \<le> x \<and> x < 2 ^ 63)"

definition grant_reward :: "session \<Rightarrow> db \<Rightarrow> bigint \<Rightarrow> int \<Rightarrow> error + db" where
  "grant_reward ctx s p_depot_id p_amount =
     (if \<not> (has_any_role ctx s [Teacher] \<or> current_user ctx = ''postgres'')
      then Inl Unauthorized
      else if \<exists>d \<in> set (depots s). d_id d = p_depot_id \<and> \<not> bigint_ok (d_cash d + p_amount)
      then Inl NumericValueOutOfRange
      else Inr (s\<lparr>depots :=
                     map (\<lambda>d. if d_id d = p_depot_id
                               then d\<lparr>d_cash := d_cash d + p_amount\<rparr> else d)
                       (depots s)\<rparr>))"

section \<open>Query API\<close>

subsection \<open>The SQL operators the queries are built from\<close>

text \<open>
  \<open>xs LEFT JOIN ys ON on\<close>: every row of \<open>xs\<close> with every row of \<open>ys\<close> that matches it, and
  once with \<open>NULL\<close>s when none does.
\<close>

definition left_join :: "'a list \<Rightarrow> ('a \<Rightarrow> 'b \<Rightarrow> bool) \<Rightarrow> 'b list \<Rightarrow> ('a \<times> 'b option) list" where
  "left_join xs on ys =
     concat (map (\<lambda>x. case filter (on x) ys of
                         [] \<Rightarrow> [(x, None)]
                       | m # ms \<Rightarrow> map (\<lambda>y. (x, Some y)) (m # ms)) xs)"

text \<open>\<open>GROUP BY\<close>: the rows that agree on the key, one group for each key that occurs.\<close>

definition group_by :: "('r \<Rightarrow> 'k) \<Rightarrow> 'r list \<Rightarrow> ('k \<times> 'r list) list" where
  "group_by key rs = map (\<lambda>k. (k, filter (\<lambda>r. key r = k) rs)) (remdups (map key rs))"

text \<open>\<open>COUNT(DISTINCT e)\<close>: the number of different values of \<open>e\<close> that are not \<open>NULL\<close>.\<close>

definition count_distinct :: "'a option list \<Rightarrow> nat" where
  "count_distinct vs = length (remdups (List.map_filter (\<lambda>v. v) vs))"

text \<open>\<open>SUM(e)\<close>: the sum of the values that are not \<open>NULL\<close>, and \<open>NULL\<close> when there is none.\<close>

definition sql_sum :: "rat option list \<Rightarrow> rat option" where
  "sql_sum vs =
     (case List.map_filter (\<lambda>v. v) vs of [] \<Rightarrow> None | x # xs \<Rightarrow> Some (sum_list (x # xs)))"

text \<open>\<open>array_agg(e)\<close>: the values in order, and \<open>NULL\<close> when there is no input row.\<close>

definition array_agg :: "'a list \<Rightarrow> 'a list option" where
  "array_agg vs = (case vs of [] \<Rightarrow> None | x # xs \<Rightarrow> Some (x # xs))"

subsection \<open>\<open>users.get_admin_overview()\<close>\<close>

record admin_overview_row =
  ao_id :: uuid
  ao_email :: string
  ao_created_at :: timestamptz
  ao_meta_data :: "(string \<times> string) list"
  ao_user_name :: "string option"
  ao_banned_until :: "timestamptz option"
  ao_user_roles :: "special_role list option"
  ao_role_granted_at :: "timestamptz list option"
  ao_depot_count :: nat
  ao_position_count :: nat
  ao_transaction_count :: nat

text \<open>
  The lateral subquery \<open>roles\<close>: an aggregate without \<open>GROUP BY\<close>, so exactly one row for
  each user, joined \<open>ON true\<close>.
\<close>

definition roles_of :: "db \<Rightarrow> auth_user \<Rightarrow> special_role list option \<times> timestamptz list option" where
  "roles_of s au =
     (let us = sort_key sr_granted_at
                 (filter (\<lambda>us. sr_user_id us = au_id au) (special_roles s))
      in (array_agg (map sr_user_role us), array_agg (map sr_granted_at us)))"

type_synonym admin_join_row =
  "(((auth_user \<times> special_role list option \<times> timestamptz list option)
      \<times> depot option) \<times> position option) \<times> transaction_row option"

text \<open>
  The \<open>FROM\<close> clause, join by join: \<open>au\<close> with \<open>roles\<close>, then
  \<open>LEFT JOIN depots.depots AS d ON au.id = ANY(d.users)\<close>,
  \<open>LEFT JOIN depots.positions AS p ON d.id = p.depot_id\<close> and
  \<open>LEFT JOIN depots.transactions AS t ON d.id = t.depot_id\<close>. A comparison with the \<open>NULL\<close>
  \<open>d.id\<close> of a user without depot is not true.
\<close>

definition admin_users_roles ::
  "db \<Rightarrow> (auth_user \<times> special_role list option \<times> timestamptz list option) list" where
  "admin_users_roles s = map (\<lambda>au. (au, roles_of s au)) (auth_users s)"

definition admin_join_depots ::
  "db \<Rightarrow> ((auth_user \<times> special_role list option \<times> timestamptz list option)
           \<times> depot option) list" where
  "admin_join_depots s =
     left_join (admin_users_roles s) (\<lambda>a d. au_id (fst a) \<in> set (d_users d)) (depots s)"

definition admin_join_positions ::
  "db \<Rightarrow> (((auth_user \<times> special_role list option \<times> timestamptz list option)
           \<times> depot option) \<times> position option) list" where
  "admin_join_positions s =
     left_join (admin_join_depots s)
       (\<lambda>r p. case snd r of None \<Rightarrow> False | Some d \<Rightarrow> d_id d = pos_depot_id p)
       (positions s)"

definition admin_overview_from :: "db \<Rightarrow> admin_join_row list" where
  "admin_overview_from s =
     left_join (admin_join_positions s)
       (\<lambda>r t. case snd (fst r) of None \<Rightarrow> False | Some d \<Rightarrow> d_id d = t_depot_id t)
       (transactions s)"

text \<open>
  \<open>GROUP BY au.id, au.email, au.created_at, au.raw_user_meta_data, roles.user_roles,
  roles.role_granted_at\<close>
\<close>

definition admin_overview_key ::
  "admin_join_row \<Rightarrow>
     uuid \<times> string \<times> timestamptz \<times> (string \<times> string) list
       \<times> special_role list option \<times> timestamptz list option" where
  "admin_overview_key r =
     (case r of ((((au, ur, ga), d), p), t) \<Rightarrow>
        (au_id au, au_email au, au_created_at au, au_raw_user_meta_data au, ur, ga))"

text \<open>
  The select list, for one group. \<open>au.banned_until\<close> is not grouped by: it is that of the
  group's user, \<open>au.id\<close> being the primary key.
\<close>

definition admin_overview_select ::
  "(uuid \<times> string \<times> timestamptz \<times> (string \<times> string) list
       \<times> special_role list option \<times> timestamptz list option) \<times> admin_join_row list
     \<Rightarrow> admin_overview_row list" where
  "admin_overview_select kg =
     (case kg of ((i, e, c, m, ur, ga), g) \<Rightarrow>
        (case g of
           [] \<Rightarrow> []
         | r # rs \<Rightarrow>
             [\<lparr>ao_id = i, ao_email = e, ao_created_at = c, ao_meta_data = m,
               ao_user_name = map_of m ''name'',
               ao_banned_until = au_banned_until (fst (fst (fst (fst r)))),
               ao_user_roles = ur, ao_role_granted_at = ga,
               ao_depot_count =
                 count_distinct (map (\<lambda>r. map_option d_id (snd (fst (fst r)))) g),
               ao_position_count =
                 count_distinct (map (\<lambda>r. map_option pos_id (snd (fst r))) g),
               ao_transaction_count =
                 count_distinct (map (\<lambda>r. map_option t_id (snd r)) g)\<rparr>]))"

definition get_admin_overview :: "session \<Rightarrow> db \<Rightarrow> error + admin_overview_row list" where
  "get_admin_overview ctx s =
     (if \<not> (has_any_role ctx s [Admin, Teacher] \<or> current_user ctx = ''postgres'')
      then Inl Unauthorized
      else Inr (concat (map admin_overview_select
                          (group_by admin_overview_key (admin_overview_from s)))))"

subsection \<open>\<open>depots.get_depot_overview()\<close>\<close>

record depot_overview_row =
  do_id :: bigint
  do_cash :: bigint
  do_cash_start :: bigint
  do_transaction_count :: nat
  do_position_count :: nat
  do_user_names :: "string option list option"
  do_user_ids :: "uuid list option"
  do_all_ids :: "uuid list"
  do_monthly_budget :: "int option"

text \<open>
  The lateral subquery \<open>u\<close> over the view \<open>users.profile\<close> (one row
  \<open>(au.id, au.raw_user_meta_data->>'name', au.created_at)\<close> for each user): the members of
  the depot, ordered by their id.
\<close>

definition members_of :: "db \<Rightarrow> depot \<Rightarrow> string option list option \<times> uuid list option" where
  "members_of s d =
     (let up = sort_key au_id (filter (\<lambda>up. au_id up \<in> set (d_users d)) (auth_users s))
      in (array_agg (map (\<lambda>up. map_of (au_raw_user_meta_data up) ''name'') up),
          array_agg (map au_id up)))"

type_synonym depot_join_row =
  "(((depot \<times> transaction_row option) \<times> position option)
      \<times> string option list option \<times> uuid list option) \<times> budget_row option"

text \<open>
  The \<open>FROM\<close> clause, join by join: \<open>d\<close>,
  \<open>LEFT JOIN depots.transactions AS dt ON dt.depot_id = d.id\<close>,
  \<open>LEFT JOIN depots.positions AS dp ON dp.depot_id = d.id\<close>, the lateral \<open>u\<close> joined
  \<open>ON TRUE\<close> (one row, it is an aggregate), and
  \<open>LEFT JOIN depots.savings_plans_budget AS dsb ON dsb.depot_id = d.id\<close>.
\<close>

definition depot_join_transactions :: "db \<Rightarrow> (depot \<times> transaction_row option) list" where
  "depot_join_transactions s =
     left_join (depots s) (\<lambda>d dt. t_depot_id dt = d_id d) (transactions s)"

definition depot_join_positions ::
  "db \<Rightarrow> ((depot \<times> transaction_row option) \<times> position option) list" where
  "depot_join_positions s =
     left_join (depot_join_transactions s) (\<lambda>r dp. pos_depot_id dp = d_id (fst r))
       (positions s)"

definition depot_join_members ::
  "db \<Rightarrow> (((depot \<times> transaction_row option) \<times> position option)
           \<times> string option list option \<times> uuid list option) list" where
  "depot_join_members s =
     map (\<lambda>r. (r, members_of s (fst (fst r)))) (depot_join_positions s)"

definition depot_overview_from :: "db \<Rightarrow> depot_join_row list" where
  "depot_overview_from s =
     left_join (depot_join_members s) (\<lambda>r dsb. b_depot_id dsb = d_id (fst (fst (fst r))))
       (savings_plans_budget s)"

text \<open>\<open>GROUP BY d.id, u.user_names, u.user_ids, dsb.budget\<close>\<close>

definition depot_overview_key ::
  "depot_join_row \<Rightarrow> bigint \<times> string option list option \<times> uuid list option \<times> int option" where
  "depot_overview_key r =
     (case r of ((((d, dt), dp), (names, ids)), dsb) \<Rightarrow>
        (d_id d, names, ids, map_option b_budget dsb))"

text \<open>
  The select list, for one group; \<open>d.cash\<close>, \<open>d.cash_start\<close> and \<open>d.users\<close> are those of the
  group's depot, \<open>d.id\<close> being the primary key.
\<close>

definition depot_overview_select ::
  "(bigint \<times> string option list option \<times> uuid list option \<times> int option)
      \<times> depot_join_row list \<Rightarrow> depot_overview_row list" where
  "depot_overview_select kg =
     (case kg of ((i, names, ids, budget), g) \<Rightarrow>
        (case g of
           [] \<Rightarrow> []
         | r # rs \<Rightarrow>
             (let d = fst (fst (fst (fst r))) in
              [\<lparr>do_id = i, do_cash = d_cash d, do_cash_start = d_cash_start d,
                do_transaction_count =
                  count_distinct (map (\<lambda>r. map_option t_id (snd (fst (fst (fst r))))) g),
                do_position_count =
                  count_distinct (map (\<lambda>r. map_option pos_id (snd (fst (fst r)))) g),
                do_user_names = names, do_user_ids = ids, do_all_ids = d_users d,
                do_monthly_budget = budget\<rparr>])))"

definition get_depot_overview :: "session \<Rightarrow> db \<Rightarrow> error + depot_overview_row list" where
  "get_depot_overview ctx s =
     (if \<not> (has_any_role ctx s [Admin, Teacher] \<or> current_user ctx = ''postgres'')
      then Inl Unauthorized
      else Inr (concat (map depot_overview_select
                          (group_by depot_overview_key (depot_overview_from s)))))"

subsection \<open>The view \<open>depots.savings_plans_budget_overview\<close>\<close>

text \<open>
  Modelled from the spec: the function \<open>depots.sp_to_per_month\<close> is defined elsewhere; the
  spec gives the per-month factor of each frequency: weekly 4.345, biweekly 2.17,
  monthly 1, quarterly 1/3, yearly 1/12.
\<close>

fun sp_to_per_month :: "period \<Rightarrow> rat" where
  "sp_to_per_month Weekly = 869 / 200"
| "sp_to_per_month Biweekly = 217 / 100"
| "sp_to_per_month Monthly = 1"
| "sp_to_per_month Quarterly = 1 / 3"
| "sp_to_per_month Yearly = 1 / 12"

record budget_overview_row =
  bo_budget :: int
  bo_depot_id :: bigint
  bo_last_changed :: timestamptz
  bo_monthly_expenses :: "rat option"
  bo_remaining_budget :: "rat option"

definition budget_overview_from :: "db \<Rightarrow> (budget_row \<times> savings_plan option) list" where
  "budget_overview_from s =
     left_join (savings_plans_budget s) (\<lambda>dsb dsp. sp_depot_id dsp = b_depot_id dsb)
       (savings_plans s)"

text \<open>\<open>SUM(dsp.worth * depots.sp_to_per_month(dsp.period))\<close> over one group.\<close>

definition monthly_expenses :: "(budget_row \<times> savings_plan option) list \<Rightarrow> rat option" where
  "monthly_expenses g =
     sql_sum (map (\<lambda>r. map_option (\<lambda>dsp. sp_worth dsp * sp_to_per_month (sp_period dsp))
                          (snd r)) g)"

text \<open>\<open>GROUP BY dsb.budget, dsb.depot_id, dsb.last_changed\<close>\<close>

definition budget_overview_key ::
  "budget_row \<times> savings_plan option \<Rightarrow> int \<times> bigint \<times> timestamptz" where
  "budget_overview_key r = (b_budget (fst r), b_depot_id (fst r), b_last_changed (fst r))"

text \<open>The select list, for one group; \<open>dsb.budget - SUM(...)\<close> is \<open>NULL\<close> when the sum is.\<close>

definition budget_overview_select ::
  "(int \<times> bigint \<times> timestamptz) \<times> (budget_row \<times> savings_plan option) list
     \<Rightarrow> budget_overview_row" where
  "budget_overview_select kg =
     (case kg of ((budget, depot_id, last_changed), g) \<Rightarrow>
        \<lparr>bo_budget = budget, bo_depot_id = depot_id, bo_last_changed = last_changed,
         bo_monthly_expenses = monthly_expenses g,
         bo_remaining_budget = map_option (\<lambda>e. of_int budget - e) (monthly_expenses g)\<rparr>)"

definition savings_plans_budget_overview :: "db \<Rightarrow> budget_overview_row list" where
  "savings_plans_budget_overview s =
     map budget_overview_select (group_by budget_overview_key (budget_overview_from s))"

section \<open>Callers, call sequences and reference quantities\<close>

text \<open>
  A caller holds a role when \<open>users.special_roles\<close> has a row of that role for the caller's
  identity.
\<close>

definition caller_holds :: "session \<Rightarrow> db \<Rightarrow> special_role \<Rightarrow> bool" where
  "caller_holds ctx s r =
     (\<exists>row \<in> set (special_roles s). uid ctx = Some (sr_user_id row) \<and> sr_user_role row = r)"

text \<open>The calls of the role and mutation API, and a sequence of them run one after another.\<close>

datatype call =
  GrantTeacher uuid
  | RevokeTeacher uuid
  | ChangeBudget bigint int
  | GrantReward bigint int

fun exec :: "session \<Rightarrow> timestamptz \<Rightarrow> db \<Rightarrow> call \<Rightarrow> error + db" where
  "exec ctx now s (GrantTeacher u) = grant_teacher ctx now s u"
| "exec ctx now s (RevokeTeacher u) = revoke_teacher ctx s u"
| "exec ctx now s (ChangeBudget i b) = change_budget ctx now s i b"
| "exec ctx now s (GrantReward i a) = grant_reward ctx s i a"

fun step :: "db \<Rightarrow> session \<times> timestamptz \<times> call \<Rightarrow> db" where
  "step s (ctx, now, c) = commit s (exec ctx now s c)"

definition run :: "db \<Rightarrow> (session \<times> timestamptz \<times> call) list \<Rightarrow> db" where
  "run s cs = foldl step s cs"

text \<open>The sum of the cash deltas that the ledger records for a depot.\<close>

definition ledger_sum :: "db \<Rightarrow> bigint \<Rightarrow> int" where
  "ledger_sum s i =
     sum_list (map t_cash_delta (filter (\<lambda>t. t_depot_id t = i) (transactions s)))"

text \<open>The amount that one call, and a sequence of calls, grants to a depot as reward.\<close>

fun reward_of :: "db \<Rightarrow> session \<times> timestamptz \<times> call \<Rightarrow> bigint \<Rightarrow> int" where
  "reward_of s (ctx, now, GrantReward p a) i =
     (case grant_reward ctx s p a of Inl e \<Rightarrow> 0 | Inr s' \<Rightarrow> if p = i then a else 0)"
| "reward_of s (ctx, now, c) i = 0"

fun rewarded :: "db \<Rightarrow> (session \<times> timestamptz \<times> call) list \<Rightarrow> bigint \<Rightarrow> int" where
  "rewarded s [] i = 0"
| "rewarded s (c # cs) i = reward_of s c i + rewarded (step s c) cs i"

text \<open>Every depot's cash is its initial cash plus its ledger sum plus \<open>r\<close> of the depot.\<close>

definition balanced_upto :: "db \<Rightarrow> (bigint \<Rightarrow> int) \<Rightarrow> bool" where
  "balanced_upto s r =
     (\<forall>d \<in> set (depots s). d_cash d = d_cash_start d + ledger_sum s (d_id d) + r (d_id d))"

text \<open>The row update of \<open>ON CONFLICT (depot_id) DO UPDATE\<close>, named.\<close>

definition set_budget :: "bigint \<Rightarrow> int \<Rightarrow> timestamptz \<Rightarrow> budget_row \<Rightarrow> budget_row" where
  "set_budget p a now b =
     (if b_depot_id b = p then b\<lparr>b_budget := a, b_last_changed := now\<rparr> else b)"

text \<open>The savings plans of a depot and what they cost in a month.\<close>

definition depot_plans :: "db \<Rightarrow> bigint \<Rightarrow> savings_plan list" where
  "depot_plans s i = filter (\<lambda>p. sp_depot_id p = i) (savings_plans s)"

definition monthly_cost :: "db \<Rightarrow> bigint \<Rightarrow> rat" where
  "monthly_cost s i =
     sum_list (map (\<lambda>p. sp_worth p * sp_to_per_month (sp_period p)) (depot_plans s i))"

text \<open>
  The rows an overview counts: the depots a user belongs to with their positions and
  transactions, and the positions and transactions of one depot.
\<close>

definition user_depots :: "db \<Rightarrow> uuid \<Rightarrow> depot list" where
  "user_depots s u = filter (\<lambda>d. u \<in> set (d_users d)) (depots s)"

definition user_positions :: "db \<Rightarrow> uuid \<Rightarrow> position list" where
  "user_positions s u =
     filter (\<lambda>p. \<exists>d \<in> set (user_depots s u). d_id d = pos_depot_id p) (positions s)"

definition user_transactions :: "db \<Rightarrow> uuid \<Rightarrow> transaction_row list" where
  "user_transactions s u =
     filter (\<lambda>t. \<exists>d \<in> set (user_depots s u). d_id d = t_depot_id t) (transactions s)"

definition depot_positions :: "db \<Rightarrow> bigint \<Rightarrow> position list" where
  "depot_positions s i = filter (\<lambda>p. pos_depot_id p = i) (positions s)"

definition depot_transactions :: "db \<Rightarrow> bigint \<Rightarrow> transaction_row list" where
  "depot_transactions s i = filter (\<lambda>t. t_depot_id t = i) (transactions s)"

section \<open>An example database\<close>

text \<open>
  A school with an admin (user 1), a teacher (user 2) and two students (users 3 and 4).
  Depot 7 belongs to user 3 and has three transactions, two positions, a budget of 250
  and one monthly savings plan of 100; depot 8 is shared by users 3 and 4 and has a budget
  of 250 and no savings plan.
\<close>

definition school :: db where
  "school =
     \<lparr>auth_users =
        [\<lparr>au_id = 1, au_email = ''ada@school'', au_created_at = 10,
          au_raw_user_meta_data = [(''name'', ''Ada'')], au_banned_until = None,
          au_is_super_admin = False\<rparr>,
         \<lparr>au_id = 2, au_email = ''bea@school'', au_created_at = 11,
          au_raw_user_meta_data = [(''name'', ''Bea'')], au_banned_until = None,
          au_is_super_admin = False\<rparr>,
         \<lparr>au_id = 3, au_email = ''cem@school'', au_created_at = 12,
          au_raw_user_meta_data = [(''name'', ''Cem'')], au_banned_until = None,
          au_is_super_admin = False\<rparr>,
         \<lparr>au_id = 4, au_email = ''dua@school'', au_created_at = 13,
          au_raw_user_meta_data = [], au_banned_until = None,
          au_is_super_admin = False\<rparr>],
      special_roles =
        [\<lparr>sr_user_id = 1, sr_user_role = Admin, sr_granted_at = 10\<rparr>,
         \<lparr>sr_user_id = 2, sr_user_role = Teacher, sr_granted_at = 12\<rparr>],
      depots =
        [\<lparr>d_id = 7, d_users = [3], d_cash = 750, d_cash_start = 1000\<rparr>,
         \<lparr>d_id = 8, d_users = [3, 4], d_cash = 500, d_cash_start = 500\<rparr>],
      positions =
        [\<lparr>pos_id = 1, pos_depot_id = 7\<rparr>, \<lparr>pos_id = 2, pos_depot_id = 7\<rparr>,
         \<lparr>pos_id = 3, pos_depot_id = 8\<rparr>],
      transactions =
        [\<lparr>t_id = 1, t_depot_id = 7, t_cash_delta = - 200\<rparr>,
         \<lparr>t_id = 2, t_depot_id = 7, t_cash_delta = - 100\<rparr>,
         \<lparr>t_id = 3, t_depot_id = 7, t_cash_delta = 50\<rparr>],
      savings_plans = [\<lparr>sp_depot_id = 7, sp_worth = 100, sp_period = Monthly\<rparr>],
      savings_plans_budget =
        [\<lparr>b_depot_id = 7, b_budget = 250, b_last_changed = 20\<rparr>,
         \<lparr>b_depot_id = 8, b_budget = 250, b_last_changed = 21\<rparr>]\<rparr>"

text \<open>A request of user \<open>u\<close> through the API, which runs as the role \<open>authenticated\<close>.\<close>

definition as_user :: "uuid \<Rightarrow> session" where
  "as_user u = \<lparr>uid = Some u, current_user = ''authenticated''\<rparr>"

section \<open>Properties of the gate and of the role API\<close>

lemma has_role_iff: "has_role ctx s r = caller_holds ctx s r"
  by (auto simp: has_role_def caller_holds_def split: option.splits)

lemma has_any_role_iff: "has_any_role ctx s rs = (\<exists>r \<in> set rs. caller_holds ctx s r)"
  by (auto simp: has_any_role_def caller_holds_def split: option.splits)

lemma teacher_gate_closed:
  "\<not> caller_holds ctx s Teacher \<Longrightarrow> current_user ctx \<noteq> ''postgres'' \<Longrightarrow>
   \<not> (has_any_role ctx s [Teacher] \<or> current_user ctx = ''postgres'')"
  by (simp add: has_any_role_iff)

lemma as_user_simps [simp]:
  "uid (as_user u) = Some u" "current_user (as_user u) = ''authenticated''"
  by (simp_all add: as_user_def)

lemma school_roles [simp]:
  "special_roles school =
     [\<lparr>sr_user_id = 1, sr_user_role = Admin, sr_granted_at = 10\<rparr>,
      \<lparr>sr_user_id = 2, sr_user_role = Teacher, sr_granted_at = 12\<rparr>]"
  by (simp add: school_def)

lemma school_students:
  "\<not> caller_holds (as_user 3) school Admin" "\<not> caller_holds (as_user 3) school Teacher"
  "\<not> caller_holds (as_user 4) school Admin" "\<not> caller_holds (as_user 4) school Teacher"
  by (simp_all add: caller_holds_def)

lemma not_postgres: "current_user (as_user u) \<noteq> ''postgres''"
  by simp

text \<open>
  C10: for an unauthenticated caller, whose \<open>auth.uid()\<close> is \<open>NULL\<close>, \<open>has_role\<close> is false
  for every role and \<open>has_any_role\<close> is false for every list of roles.
\<close>

theorem unauthenticated_holds_no_role:
  "uid ctx = None \<Longrightarrow> \<not> has_role ctx s r \<and> \<not> has_any_role ctx s rs"
  by (simp add: has_role_def has_any_role_def)

theorem unauthenticated_holds_no_role_witness:
  "uid \<lparr>uid = None, current_user = ''authenticated''\<rparr> = None
   \<and> \<not> has_role \<lparr>uid = None, current_user = ''authenticated''\<rparr> school Admin
   \<and> \<not> has_any_role \<lparr>uid = None, current_user = ''authenticated''\<rparr> school [Admin, Teacher]"
  using unauthenticated_holds_no_role
    [of "\<lparr>uid = None, current_user = ''authenticated''\<rparr>" school Admin "[Admin, Teacher]"]
  by simp

text \<open>
  The gate of the functions that are \<open>SECURITY DEFINER\<close>, as a caller meets it. The
  caller's roles are those of \<open>auth.uid()\<close>; the second disjunct of the gate,
  \<open>current_user = 'postgres'\<close>, is a test of the function's owner. With another owner the
  gate refuses every caller without a role, also one connected as \<open>postgres\<close>; with the
  owner \<open>postgres\<close> the gate refuses nobody.
\<close>

lemma security_definer_simps [simp]:
  "uid (security_definer owner ctx) = uid ctx"
  "current_user (security_definer owner ctx) = owner"
  by (simp_all add: security_definer_def)

lemma caller_holds_definer [simp]:
  "caller_holds (security_definer owner ctx) s r = caller_holds ctx s r"
  by (simp add: caller_holds_def)

lemma definer_gate_closed:
  assumes "\<not> caller_holds ctx s Admin" and "\<not> caller_holds ctx s Teacher"
    and "owner \<noteq> ''postgres''"
  shows "grant_teacher (security_definer owner ctx) now s u = Inl Unauthorized"
    and "revoke_teacher (security_definer owner ctx) s u = Inl Unauthorized"
    and "get_admin_overview (security_definer owner ctx) s = Inl Unauthorized"
    and "get_depot_overview (security_definer owner ctx) s = Inl Unauthorized"
  using assms
  by (simp_all add: grant_teacher_def revoke_teacher_def get_admin_overview_def
      get_depot_overview_def has_any_role_iff)

lemma definer_gate_open:
  shows "grant_teacher (security_definer ''postgres'' ctx) now s u \<noteq> Inl Unauthorized"
    and "revoke_teacher (security_definer ''postgres'' ctx) s u \<noteq> Inl Unauthorized"
    and "get_admin_overview (security_definer ''postgres'' ctx) s \<noteq> Inl Unauthorized"
    and "get_depot_overview (security_definer ''postgres'' ctx) s \<noteq> Inl Unauthorized"
  by (simp_all add: grant_teacher_def revoke_teacher_def get_admin_overview_def
      get_depot_overview_def insert_special_role_def split: sum.splits)

text \<open>
  \<open>grant_reward\<close> is not \<open>SECURITY DEFINER\<close>, so its gate tests the caller: without the
  teacher role and not connected as \<open>postgres\<close>, the caller gets \<open>Unauthorized\<close> whatever
  the depot id, whether or not such a depot exists, and the database is as before.
\<close>

lemma grant_reward_denied:
  assumes "\<not> caller_holds ctx s Teacher" and "current_user ctx \<noteq> ''postgres''"
  shows "grant_reward ctx s p_depot_id p_amount = Inl Unauthorized"
    and "commit s (grant_reward ctx s p_depot_id p_amount) = s"
  using teacher_gate_closed [OF assms] by (simp_all add: grant_reward_def commit_def)

text \<open>
  C7, at student 3 of the school, who holds no role and is connected as \<open>authenticated\<close>,
  with \<open>grant_teacher\<close> and \<open>revoke_teacher\<close> owned by \<open>postgres\<close>: the student gives
  themselves the teacher role, which sets the elevated flag of every user, and takes the
  teacher role from user 2. Neither call is refused.
\<close>

theorem student_changes_teacher_roles:
  "\<not> caller_holds (as_user 3) school Admin \<and> \<not> caller_holds (as_user 3) school Teacher
   \<and> current_user (as_user 3) \<noteq> ''postgres''
   \<and> map (\<lambda>r. (sr_user_id r, sr_user_role r))
        (special_roles (commit school
           (grant_teacher (security_definer ''postgres'' (as_user 3)) 30 school 3)))
       = [(1, Admin), (2, Teacher), (3, Teacher)]
   \<and> map au_is_super_admin
        (auth_users (commit school
           (grant_teacher (security_definer ''postgres'' (as_user 3)) 30 school 3)))
       = [True, True, True, True]
   \<and> map (\<lambda>r. (sr_user_id r, sr_user_role r))
        (special_roles (commit school
           (revoke_teacher (security_definer ''postgres'' (as_user 3)) school 2)))
       = [(1, Admin)]"
  by (simp add: school_def grant_teacher_def revoke_teacher_def insert_special_role_def
      caller_holds_def commit_def)

text \<open>
  C3, at student 4 of the school, who holds no role and is connected as \<open>authenticated\<close>,
  with \<open>get_admin_overview\<close> owned by \<open>postgres\<close>: \<open>grant_reward\<close> refuses the student with
  \<open>Unauthorized\<close>, for the existing depot 8 and for the missing depot 99, and
  \<open>get_admin_overview\<close> does not refuse: it returns the row of every user.
\<close>

theorem student_reads_admin_overview:
  "\<not> caller_holds (as_user 4) school Admin \<and> \<not> caller_holds (as_user 4) school Teacher
   \<and> current_user (as_user 4) \<noteq> ''postgres''
   \<and> grant_reward (as_user 4) school 8 50 = Inl Unauthorized
   \<and> grant_reward (as_user 4) school 99 50 = Inl Unauthorized
   \<and> get_admin_overview (security_definer ''postgres'' (as_user 4)) school
       \<noteq> Inl Unauthorized
   \<and> map ao_email
        (case get_admin_overview (security_definer ''postgres'' (as_user 4)) school of
           Inl e \<Rightarrow> [] | Inr rows \<Rightarrow> rows)
       = [''ada@school'', ''bea@school'', ''cem@school'', ''dua@school'']"
proof -
  have "map ao_email
          (case get_admin_overview (security_definer ''postgres'' (as_user 4)) school of
             Inl e \<Rightarrow> [] | Inr rows \<Rightarrow> rows)
        = [''ada@school'', ''bea@school'', ''cem@school'', ''dua@school'']"
    by code_simp
  then show ?thesis
    using school_students(3,4) grant_reward_denied(1) [OF school_students(4) not_postgres]
      definer_gate_open(3) [of "as_user 4" school]
    by simp
qed

text \<open>
  What the two calls do to the elevated flags when they succeed: \<open>revoke_teacher\<close> leaves
  the record of every user but the target as it is, \<open>grant_teacher\<close> sets the flag of
  every user.
\<close>

lemma revoke_teacher_others:
  assumes "revoke_teacher ctx s u = Inr s'"
  shows "filter (\<lambda>a. au_id a \<noteq> u) (auth_users s') = filter (\<lambda>a. au_id a \<noteq> u) (auth_users s)"
proof -
  have "filter (\<lambda>a. au_id a \<noteq> u)
          (map (\<lambda>a. if au_id a = u then a\<lparr>au_is_super_admin := False\<rparr> else a) us)
        = filter (\<lambda>a. au_id a \<noteq> u) us" for us
    by (induction us) simp_all
  with assms show ?thesis
    by (auto simp: revoke_teacher_def split: if_splits)
qed

lemma grant_teacher_all:
  assumes "grant_teacher ctx now s u = Inr s'"
  shows "map au_id (auth_users s') = map au_id (auth_users s)"
    and "\<forall>a \<in> set (auth_users s'). au_is_super_admin a"
  using assms
  by (auto simp: grant_teacher_def insert_special_role_def split: if_splits)

text \<open>
  C1, at the admin of the school granting the teacher role to user 3: the elevated flag
  of every user is set, not only that of user 3.
\<close>

theorem grant_teacher_elevates_every_user:
  "map au_is_super_admin (auth_users school) = [False, False, False, False]
   \<and> map (\<lambda>u. (au_id u, au_is_super_admin u))
        (auth_users (commit school (grant_teacher (as_user 1) 30 school 3)))
       = [(1, True), (2, True), (3, True), (4, True)]"
  by (simp add: school_def grant_teacher_def insert_special_role_def has_any_role_def
      commit_def)

text \<open>
  C4, as stated, fails whoever owns \<open>get_depot_overview\<close>. Owned by another role than
  \<open>postgres\<close> (here \<open>supabase_admin\<close>), user 3 of the school, a member of depots 7 and 8
  without a role, gets no row but the error \<open>Unauthorized\<close>. Owned by \<open>postgres\<close>, user 4,
  a member of depot 8 only and without a role, gets the rows of depots 7 and 8.
\<close>

theorem depot_member_overview_counterexample:
  "map d_id (user_depots school 3) = [7, 8]
   \<and> \<not> caller_holds (as_user 3) school Admin \<and> \<not> caller_holds (as_user 3) school Teacher
   \<and> get_depot_overview (security_definer ''supabase_admin'' (as_user 3)) school
       = Inl Unauthorized
   \<and> map d_id (user_depots school 4) = [8]
   \<and> \<not> caller_holds (as_user 4) school Admin \<and> \<not> caller_holds (as_user 4) school Teacher
   \<and> map do_id
        (case get_depot_overview (security_definer ''postgres'' (as_user 4)) school of
           Inl e \<Rightarrow> [] | Inr rows \<Rightarrow> rows)
       = [7, 8]"
proof -
  have "map do_id
          (case get_depot_overview (security_definer ''postgres'' (as_user 4)) school of
             Inl e \<Rightarrow> [] | Inr rows \<Rightarrow> rows) = [7, 8]"
    by code_simp
  moreover have "map d_id (user_depots school 3) = [7, 8]"
    and "map d_id (user_depots school 4) = [8]"
    by (simp_all add: user_depots_def school_def)
  ultimately show ?thesis
    using school_students
      definer_gate_closed(4) [OF school_students(1,2), of "''supabase_admin''"]
    by simp
qed

text \<open>
  C4, amended: when \<open>get_depot_overview\<close> is owned by another role than \<open>postgres\<close>, the
  depot overview fails with \<open>Unauthorized\<close> for every caller who holds neither the teacher
  nor the admin role: it returns no row, neither of the caller's depots nor of any other.
\<close>

theorem depot_overview_denied:
  assumes "\<not> caller_holds ctx s Admin" and "\<not> caller_holds ctx s Teacher"
    and "owner \<noteq> ''postgres''"
  shows "get_depot_overview (security_definer owner ctx) s = Inl Unauthorized"
  using assms by (simp add: get_depot_overview_def has_any_role_iff)

theorem depot_overview_denied_witness:
  "\<not> caller_holds (as_user 3) school Admin \<and> \<not> caller_holds (as_user 3) school Teacher
   \<and> ''supabase_admin'' \<noteq> ''postgres''
   \<and> get_depot_overview (security_definer ''supabase_admin'' (as_user 3)) school
       = Inl Unauthorized"
  using depot_overview_denied [OF school_students(1,2), of "''supabase_admin''" ]
    school_students(1,2)
  by simp

section \<open>Changing the budget\<close>

lemma set_budget_simps [simp]:
  "b_depot_id (set_budget p a now b) = b_depot_id b"
  "b_depot_id b = p \<Longrightarrow> b_budget (set_budget p a now b) = a"
  "b_depot_id b \<noteq> p \<Longrightarrow> set_budget p a now b = b"
  by (simp_all add: set_budget_def)

lemma set_budget_others:
  "filter (\<lambda>b. b_depot_id b \<noteq> p) (map (set_budget p a now) bs)
     = filter (\<lambda>b. b_depot_id b \<noteq> p) bs"
proof (induction bs)
  case Nil
  show ?case by simp
next
  case (Cons b bs)
  then show ?case by (cases "b_depot_id b = p") simp_all
qed

lemma budget_update_rows:
  shows "(\<exists>b \<in> set (map (set_budget p a now) bs). b_depot_id b = p)
           = (\<exists>b \<in> set bs. b_depot_id b = p)"
    and "\<forall>b \<in> set (map (set_budget p a now) bs). b_depot_id b = p \<longrightarrow> b_budget b = a"
    and "filter (\<lambda>b. b_depot_id b \<noteq> p) (map (set_budget p a now) bs)
           = filter (\<lambda>b. b_depot_id b \<noteq> p) bs"
  by (simp_all add: set_budget_others)

lemma cb_update:
  assumes "budget_write_allowed ctx s" and "\<exists>b \<in> set (savings_plans_budget s). b_depot_id b = p"
  shows "change_budget ctx now s p a
          = Inr (s\<lparr>savings_plans_budget := map (set_budget p a now) (savings_plans_budget s)\<rparr>)"
  unfolding change_budget_def set_budget_def [abs_def] using assms by simp

lemma cb_insert:
  assumes "budget_write_allowed ctx s" and "\<not> (\<exists>b \<in> set (savings_plans_budget s). b_depot_id b = p)"
    and "p \<in> d_id ` set (depots s)"
  shows "change_budget ctx now s p a
          = Inr (s\<lparr>savings_plans_budget := savings_plans_budget s @
                       [\<lparr>b_depot_id = p, b_budget = a, b_last_changed = now\<rparr>]\<rparr>)"
  unfolding change_budget_def using assms by simp

lemma change_budget_allowed:
  assumes "budget_write_allowed ctx s" and "p \<in> d_id ` set (depots s)"
  shows "\<exists>s'. change_budget ctx now s p a = Inr s'
           \<and> (\<exists>b \<in> set (savings_plans_budget s'). b_depot_id b = p)
           \<and> (\<forall>b \<in> set (savings_plans_budget s'). b_depot_id b = p \<longrightarrow> b_budget b = a)
           \<and> filter (\<lambda>b. b_depot_id b \<noteq> p) (savings_plans_budget s')
               = filter (\<lambda>b. b_depot_id b \<noteq> p) (savings_plans_budget s)"
proof (cases "\<exists>b \<in> set (savings_plans_budget s). b_depot_id b = p")
  case True
  let ?bs = "map (set_budget p a now) (savings_plans_budget s)"
  have "(\<exists>b \<in> set ?bs. b_depot_id b = p)
        \<and> (\<forall>b \<in> set ?bs. b_depot_id b = p \<longrightarrow> b_budget b = a)
        \<and> filter (\<lambda>b. b_depot_id b \<noteq> p) ?bs = filter (\<lambda>b. b_depot_id b \<noteq> p) (savings_plans_budget s)"
    using True budget_update_rows [of p a now "savings_plans_budget s"] by blast
  then show ?thesis
    unfolding cb_update [OF assms(1) True] by (intro exI [of _ "s\<lparr>savings_plans_budget := ?bs\<rparr>"]) simp
next
  case False
  let ?bs = "savings_plans_budget s @ [\<lparr>b_depot_id = p, b_budget = a, b_last_changed = now\<rparr>]"
  have "(\<exists>b \<in> set ?bs. b_depot_id b = p)
        \<and> (\<forall>b \<in> set ?bs. b_depot_id b = p \<longrightarrow> b_budget b = a)
        \<and> filter (\<lambda>b. b_depot_id b \<noteq> p) ?bs = filter (\<lambda>b. b_depot_id b \<noteq> p) (savings_plans_budget s)"
    using False by simp
  then show ?thesis
    unfolding cb_insert [OF assms(1) False assms(2)]
    by (intro exI [of _ "s\<lparr>savings_plans_budget := ?bs\<rparr>"]) simp
qed

text \<open>
  C8, as stated, fails for the admin of the school, who holds the admin role and not the
  teacher role: changing the budget of the existing depot 7 is refused by row-level
  security.
\<close>

theorem change_budget_admin_counterexample:
  "caller_holds (as_user 1) school Admin \<and> 7 \<in> d_id ` set (depots school)
   \<and> change_budget (as_user 1) 30 school 7 300 = Inl RowSecurityViolation"
  by (simp add: school_def change_budget_def budget_write_allowed_def has_role_def
      caller_holds_def)

text \<open>
  C8, amended: for a caller connected as \<open>authenticated\<close> and an existing depot,
  \<open>change_budget\<close> succeeds exactly when the caller holds the teacher role (the admin role
  does not count). On success the depot has a budget row, every budget row of the depot
  holds the new amount, whether or not a row existed before, and the rows of the other
  depots are as before. Otherwise the call is refused by row-level security and the
  database is as before.
\<close>

theorem change_budget_teacher_only:
  assumes "current_user ctx = ''authenticated''" and "p \<in> d_id ` set (depots s)"
  shows "if caller_holds ctx s Teacher
         then \<exists>s'. change_budget ctx now s p a = Inr s'
                \<and> (\<exists>b \<in> set (savings_plans_budget s'). b_depot_id b = p)
                \<and> (\<forall>b \<in> set (savings_plans_budget s'). b_depot_id b = p \<longrightarrow> b_budget b = a)
                \<and> filter (\<lambda>b. b_depot_id b \<noteq> p) (savings_plans_budget s')
                    = filter (\<lambda>b. b_depot_id b \<noteq> p) (savings_plans_budget s)
         else change_budget ctx now s p a = Inl RowSecurityViolation
                \<and> commit s (change_budget ctx now s p a) = s"
proof (cases "caller_holds ctx s Teacher")
  case True
  with assms(1) have "budget_write_allowed ctx s"
    by (simp add: budget_write_allowed_def has_role_iff)
  from change_budget_allowed [OF this assms(2)] True show ?thesis by simp
next
  case False
  with assms(1) have "\<not> budget_write_allowed ctx s"
    by (simp add: budget_write_allowed_def has_role_iff)
  with False show ?thesis by (simp add: change_budget_def commit_def)
qed


theorem change_budget_teacher_only_witness:
  "current_user (as_user 2) = ''authenticated'' \<and> 8 \<in> d_id ` set (depots school)
   \<and> caller_holds (as_user 2) school Teacher
   \<and> map (\<lambda>b. (b_depot_id b, b_budget b))
         (savings_plans_budget (commit school (change_budget (as_user 2) 30 school 8 300)))
       = [(7, 250), (8, 300)]
   \<and> \<not> caller_holds (as_user 3) school Teacher
   \<and> change_budget (as_user 3) 30 school 8 300 = Inl RowSecurityViolation"
proof -
  have d: "8 \<in> d_id ` set (depots school)" by (simp add: school_def)
  have t: "caller_holds (as_user 2) school Teacher" by (simp add: caller_holds_def)
  have b: "savings_plans_budget school =
             [\<lparr>b_depot_id = 7, b_budget = 250, b_last_changed = 20\<rparr>,
              \<lparr>b_depot_id = 8, b_budget = 250, b_last_changed = 21\<rparr>]"
    by (simp add: school_def)
  from change_budget_teacher_only [OF as_user_simps(2) d, of 2 30 300] t
  obtain s' where s': "change_budget (as_user 2) 30 school 8 300 = Inr s'"
    and eight: "\<forall>b \<in> set (savings_plans_budget s'). b_depot_id b = 8 \<longrightarrow> b_budget b = 300"
    by auto
  from s' have "savings_plans_budget s' =
                  [\<lparr>b_depot_id = 7, b_budget = 250, b_last_changed = 20\<rparr>,
                   \<lparr>b_depot_id = 8, b_budget = 300, b_last_changed = 30\<rparr>]"
    by (auto simp: change_budget_def b split: if_splits)
  with s' change_budget_teacher_only [OF as_user_simps(2) d, of 3 30 300]
    d t school_students(2)
  show ?thesis by (simp add: commit_def)
qed

section \<open>Cash and the ledger\<close>

lemma exec_frame:
  assumes "exec ctx now s c = Inr s'" and "\<forall>p a. c \<noteq> GrantReward p a"
  shows "depots s' = depots s \<and> transactions s' = transactions s"
  using assms
  by (cases c)
    (auto simp: grant_teacher_def revoke_teacher_def change_budget_def insert_special_role_def
      split: if_splits sum.splits)

lemma grant_reward_effect:
  assumes "grant_reward ctx s p a = Inr s'"
  shows "transactions s' = transactions s
         \<and> depots s' = map (\<lambda>d. if d_id d = p then d\<lparr>d_cash := d_cash d + a\<rparr> else d) (depots s)"
  using assms by (auto simp: grant_reward_def split: if_splits)

lemma ledger_sum_cong: "transactions s' = transactions s \<Longrightarrow> ledger_sum s' i = ledger_sum s i"
  by (simp add: ledger_sum_def)

lemma balanced_upto_reward:
  assumes "balanced_upto s r" and "transactions s' = transactions s"
    and "depots s' = map (\<lambda>d. if d_id d = p then d\<lparr>d_cash := d_cash d + a\<rparr> else d) (depots s)"
  shows "balanced_upto s' (\<lambda>i. r i + (if p = i then a else 0))"
  unfolding balanced_upto_def
proof
  fix d' assume "d' \<in> set (depots s')"
  with assms(3) obtain d where d: "d \<in> set (depots s)"
    and d': "d' = (if d_id d = p then d\<lparr>d_cash := d_cash d + a\<rparr> else d)"
    by auto
  from assms(1) d have "d_cash d = d_cash_start d + ledger_sum s (d_id d) + r (d_id d)"
    by (simp add: balanced_upto_def)
  then show "d_cash d' = d_cash_start d' + ledger_sum s' (d_id d')
                + (r (d_id d') + (if p = d_id d' then a else 0))"
    by (simp add: d' ledger_sum_cong [OF assms(2)])
qed

lemma balanced_upto_frame:
  assumes "balanced_upto s r" and "transactions s' = transactions s" and "depots s' = depots s"
  shows "balanced_upto s' r"
  using assms by (simp add: balanced_upto_def ledger_sum_def)

lemma step_balanced:
  assumes "balanced_upto s r"
  shows "balanced_upto (step s c) (\<lambda>i. r i + reward_of s c i)"
proof -
  obtain ctx now k where c: "c = (ctx, now, k)" by (cases c)
  show ?thesis
  proof (cases "exec ctx now s k")
    case (Inl e)
    then have "step s c = s" and "reward_of s c = (\<lambda>i. 0)"
      by (cases k; simp add: c commit_def fun_eq_iff)+
    with assms show ?thesis by simp
  next
    case (Inr s')
    then have st: "step s c = s'" by (simp add: c commit_def)
    show ?thesis
    proof (cases "\<exists>p a. k = GrantReward p a")
      case True
      then obtain p a where k: "k = GrantReward p a" by blast
      from Inr k have g: "grant_reward ctx s p a = Inr s'" by simp
      then have "reward_of s c = (\<lambda>i. if p = i then a else 0)"
        by (simp add: c k fun_eq_iff)
      with balanced_upto_reward [OF assms] grant_reward_effect [OF g] st show ?thesis
        by simp
    next
      case False
      then have nr: "\<forall>p a. k \<noteq> GrantReward p a" by blast
      from False have "reward_of s c = (\<lambda>i. 0)" by (cases k) (simp_all add: c fun_eq_iff)
      with exec_frame [OF Inr nr] balanced_upto_frame [OF assms] st show ?thesis
        by simp
    qed
  qed
qed

lemma run_balanced:
  "balanced_upto s r \<Longrightarrow> balanced_upto (run s cs) (\<lambda>i. r i + rewarded s cs i)"
proof (induction cs arbitrary: s r)
  case Nil
  then show ?case by (simp add: run_def)
next
  case (Cons c cs)
  from Cons.IH [OF step_balanced [OF Cons.prems, of c]]
  show ?case by (simp add: run_def add.assoc)
qed

lemma step_transactions: "transactions (step s c) = transactions s"
proof -
  obtain ctx now k where c: "c = (ctx, now, k)" by (cases c)
  show ?thesis
  proof (cases "exec ctx now s k")
    case (Inl e) then show ?thesis by (simp add: c commit_def)
  next
    case (Inr s')
    then show ?thesis
      using exec_frame [OF Inr] grant_reward_effect [of ctx s _ _ s']
      by (cases k) (auto simp: c commit_def)
  qed
qed

lemma run_transactions: "transactions (run s cs) = transactions s"
  unfolding run_def by (induction cs arbitrary: s) (simp_all add: step_transactions)

text \<open>
  C2, as stated, fails at the teacher of the school granting a reward of 50 to depot 7:
  before, the cash of every depot is its initial cash plus its ledger sum; after, the
  cash of depot 7 is 800, the ledger is the same and gives 1000 - 250 = 750.
\<close>

theorem reward_bypasses_ledger_counterexample:
  "map (\<lambda>d. (d_id d, d_cash d, d_cash_start d + ledger_sum school (d_id d))) (depots school)
     = [(7, 750, 750), (8, 500, 500)]
   \<and> map (\<lambda>d. (d_id d, d_cash d, d_cash_start d))
        (depots (commit school (grant_reward (as_user 2) school 7 50)))
      = [(7, 800, 1000), (8, 500, 500)]
   \<and> transactions (commit school (grant_reward (as_user 2) school 7 50)) = transactions school
   \<and> ledger_sum school 7 = - 250"
  by (simp add: school_def grant_reward_def has_any_role_def ledger_sum_def
      bigint_ok_def commit_def as_user_def)

text \<open>
  C2, amended: no call of the role and mutation API writes the ledger, and only a
  successful \<open>grant_reward\<close> changes a depot's cash, by the amount granted. So after every
  sequence of calls from a database in which the cash of every depot is its initial cash
  plus its ledger sum, the cash of every depot is its initial cash plus its ledger sum
  plus the rewards the sequence granted to it.
\<close>

theorem cash_is_ledger_plus_rewards:
  assumes "\<forall>d \<in> set (depots s). d_cash d = d_cash_start d + ledger_sum s (d_id d)"
  shows "transactions (run s cs) = transactions s
         \<and> (\<forall>d \<in> set (depots (run s cs)).
               d_cash d = d_cash_start d + ledger_sum (run s cs) (d_id d)
                            + rewarded s cs (d_id d))"
proof -
  from assms have "balanced_upto s (\<lambda>i. 0)" by (simp add: balanced_upto_def)
  from run_balanced [OF this, of cs] show ?thesis
    by (simp add: balanced_upto_def run_transactions)
qed

theorem cash_is_ledger_plus_rewards_witness:
  "map (\<lambda>d. (d_id d, d_cash d, d_cash_start d + ledger_sum school (d_id d))) (depots school)
     = [(7, 750, 750), (8, 500, 500)]
   \<and> map (\<lambda>d. (d_id d, d_cash d, d_cash_start d, ledger_sum school (d_id d)))
         (depots (run school
            [(as_user 2, 30, GrantReward 7 50), (as_user 3, 31, GrantReward 7 70),
             (as_user 2, 32, ChangeBudget 8 300)]))
       = [(7, 800, 1000, - 250), (8, 500, 500, 0)]
   \<and> rewarded school
         [(as_user 2, 30, GrantReward 7 50), (as_user 3, 31, GrantReward 7 70),
          (as_user 2, 32, ChangeBudget 8 300)] 7 = 50
   \<and> transactions (run school
         [(as_user 2, 30, GrantReward 7 50), (as_user 3, 31, GrantReward 7 70),
          (as_user 2, 32, ChangeBudget 8 300)]) = transactions school"
proof -
  let ?cs = "[(as_user 2, 30, GrantReward 7 50), (as_user 3, 31, GrantReward 7 70),
              (as_user 2, 32, ChangeBudget 8 300)]"
  have h: "\<forall>d \<in> set (depots school). d_cash d = d_cash_start d + ledger_sum school (d_id d)"
    by (simp add: school_def ledger_sum_def)
  have ev: "map (\<lambda>d. (d_id d, d_cash d, d_cash_start d, ledger_sum school (d_id d)))
              (depots (run school ?cs)) = [(7, 800, 1000, - 250), (8, 500, 500, 0)]"
    by (simp add: run_def commit_def grant_reward_def change_budget_def has_any_role_def
        has_role_def budget_write_allowed_def bigint_ok_def ledger_sum_def school_def as_user_def)
  have rw: "rewarded school ?cs 7 = 50"
    by (simp add: commit_def grant_reward_def has_any_role_def bigint_ok_def school_def
        as_user_def)
  have "map (\<lambda>d. (d_id d, d_cash d, d_cash_start d + ledger_sum school (d_id d)))
          (depots school) = [(7, 750, 750), (8, 500, 500)]"
    by (simp add: school_def ledger_sum_def)
  with cash_is_ledger_plus_rewards [OF h, of ?cs] ev rw show ?thesis by simp
qed

section \<open>The budget overview\<close>

lemma left_join_row:
  "(case zs of [] \<Rightarrow> [(x, None)] | m # ms \<Rightarrow> map f (m # ms))
     = (if zs = [] then [(x, None)] else map f zs)"
  by (cases zs) simp_all

lemma set_left_join:
  "set (left_join xs on ys) =
     {(x, Some y) | x y. x \<in> set xs \<and> y \<in> set ys \<and> on x y}
     \<union> {(x, None) | x. x \<in> set xs \<and> (\<forall>y \<in> set ys. \<not> on x y)}"
  unfolding left_join_def left_join_row
  by (auto simp: filter_empty_conv split: if_splits)

lemma left_join_Some_iff:
  "(x, Some y) \<in> set (left_join xs on ys) \<longleftrightarrow> x \<in> set xs \<and> y \<in> set ys \<and> on x y"
  by (auto simp: set_left_join)

lemma left_join_None_iff:
  "(x, None) \<in> set (left_join xs on ys) \<longleftrightarrow> x \<in> set xs \<and> (\<forall>y \<in> set ys. \<not> on x y)"
  by (auto simp: set_left_join)

lemma left_join_total:
  "x \<in> set xs \<Longrightarrow> \<exists>v. (x, v) \<in> set (left_join xs on ys)"
  by (cases "\<forall>y \<in> set ys. \<not> on x y") (auto simp: set_left_join)

lemma left_join_fst: "(x, v) \<in> set (left_join xs on ys) \<Longrightarrow> x \<in> set xs"
  by (auto simp: set_left_join)

lemma set_group_by:
  "set (group_by key rs) = (\<lambda>k. (k, filter (\<lambda>r. key r = k) rs)) ` key ` set rs"
  by (simp add: group_by_def)

lemma count_distinct_card: "count_distinct vs = card {v. Some v \<in> set vs}"
proof -
  have "set (List.map_filter (\<lambda>v. v) vs) = {v. Some v \<in> set vs}"
    by (induction vs) (auto split: option.splits)
  then show ?thesis
    by (simp add: count_distinct_def length_remdups_card_conv)
qed

lemma sql_sum_all_null: "\<forall>v \<in> set vs. v = None \<Longrightarrow> sql_sum vs = None"
proof -
  assume "\<forall>v \<in> set vs. v = None"
  then have "List.map_filter (\<lambda>v. v) vs = []"
    by (induction vs) simp_all
  then show ?thesis by (simp add: sql_sum_def)
qed

lemma sql_sum_values: "vs \<noteq> [] \<Longrightarrow> sql_sum (map Some vs) = Some (sum_list vs)"
proof -
  assume ne: "vs \<noteq> []"
  have "List.map_filter (\<lambda>v. v) (map Some vs) = vs"
    by (induction vs) simp_all
  with ne show ?thesis by (cases vs) (simp_all add: sql_sum_def)
qed


lemma filter_concat_own:
  assumes "distinct (map k xs)" and "x \<in> set xs"
    and "\<And>y r. y \<in> set xs \<Longrightarrow> r \<in> set (h y) \<Longrightarrow> P r \<longleftrightarrow> k y = k x"
  shows "filter P (concat (map h xs)) = h x"
  using assms
proof (induction xs)
  case Nil
  then show ?case by simp
next
  case (Cons y ys)
  show ?case
  proof (cases "k y = k x")
    case True
    with Cons.prems(1,2) have yx: "y = x" and notin: "k x \<notin> k ` set ys" by auto
    have "filter P (h x) = h x"
      using Cons.prems(3) [of x] by (simp add: yx filter_id_conv)
    moreover have "\<not> P r" if "z \<in> set ys" and "r \<in> set (h z)" for z r
    proof -
      from that(1) notin have "k z \<noteq> k x" by (metis imageI)
      with Cons.prems(3) [of z r] that show ?thesis by simp
    qed
    then have "filter P (concat (map h ys)) = []"
      by (auto simp: filter_empty_conv)
    ultimately show ?thesis by (simp add: yx)
  next
    case False
    with Cons.prems(2) have x: "x \<in> set ys" by auto
    have "filter P (h y) = []"
      using Cons.prems(3) [of y] False by (simp add: filter_empty_conv)
    moreover have "filter P (concat (map h ys)) = h x"
      using Cons.IH Cons.prems(1,3) x by simp
    ultimately show ?thesis by simp
  qed
qed

lemma left_join_fst_image: "fst ` set (left_join xs on ys) = set xs"
proof (intro set_eqI iffI)
  fix x assume "x \<in> fst ` set (left_join xs on ys)"
  then obtain v where "(x, v) \<in> set (left_join xs on ys)" by auto
  then show "x \<in> set xs" by (rule left_join_fst)
next
  fix x assume "x \<in> set xs"
  from left_join_total [OF this] obtain v where "(x, v) \<in> set (left_join xs on ys)" by blast
  then show "x \<in> fst ` set (left_join xs on ys)" by (rule rev_image_eqI) simp
qed

lemma budget_overview_keys:
  "budget_overview_key ` set (budget_overview_from s)
     = (\<lambda>b. (b_budget b, b_depot_id b, b_last_changed b)) ` set (savings_plans_budget s)"
proof -
  have "budget_overview_key = (\<lambda>b. (b_budget b, b_depot_id b, b_last_changed b)) \<circ> fst"
    by (simp add: fun_eq_iff budget_overview_key_def)
  then have "budget_overview_key ` set (budget_overview_from s)
      = (\<lambda>b. (b_budget b, b_depot_id b, b_last_changed b)) ` fst ` set (budget_overview_from s)"
    by (simp only: image_comp)
  then show ?thesis
    by (simp only: budget_overview_from_def left_join_fst_image)
qed

lemma set_budget_overview:
  "set (savings_plans_budget_overview s)
     = (\<lambda>b. budget_overview_select ((b_budget b, b_depot_id b, b_last_changed b),
                filter (\<lambda>r. budget_overview_key r = (b_budget b, b_depot_id b, b_last_changed b))
                  (budget_overview_from s))) ` set (savings_plans_budget s)"
  by (simp add: savings_plans_budget_overview_def set_group_by budget_overview_keys image_image)

lemma no_plans_group:
  assumes "depot_plans s i = []"
  shows "monthly_expenses (filter (\<lambda>r. budget_overview_key r = (x, i, y)) (budget_overview_from s)) = None"
proof -
  have "snd r = None"
    if "r \<in> set (filter (\<lambda>r. budget_overview_key r = (x, i, y)) (budget_overview_from s))" for r
  proof (cases r)
    case (Pair b v)
    with that assms show ?thesis
      by (cases v)
        (auto simp: budget_overview_from_def left_join_Some_iff budget_overview_key_def
          depot_plans_def filter_empty_conv)
  qed
  then show ?thesis
    unfolding monthly_expenses_def by (intro sql_sum_all_null) simp
qed

text \<open>
  C9: when a depot has no savings plan, every row of the budget overview for the depot
  has \<open>NULL\<close> as \<open>monthly_expenses\<close> and as \<open>remaining_budget\<close>, and every budget row of the
  depot gives such a row.
\<close>

theorem no_plans_null_budget:
  assumes "depot_plans s i = []"
  shows "(\<forall>r \<in> set (savings_plans_budget_overview s).
            bo_depot_id r = i \<longrightarrow> bo_monthly_expenses r = None \<and> bo_remaining_budget r = None)
         \<and> (\<forall>b \<in> set (savings_plans_budget s).
               b_depot_id b = i \<longrightarrow>
                 \<lparr>bo_budget = b_budget b, bo_depot_id = i, bo_last_changed = b_last_changed b,
                  bo_monthly_expenses = None, bo_remaining_budget = None\<rparr>
                   \<in> set (savings_plans_budget_overview s))"
proof (intro conjI ballI impI)
  fix r assume "r \<in> set (savings_plans_budget_overview s)" and i: "bo_depot_id r = i"
  then obtain b where "b \<in> set (savings_plans_budget s)"
    and r: "r = budget_overview_select ((b_budget b, b_depot_id b, b_last_changed b),
                filter (\<lambda>r. budget_overview_key r
                              = (b_budget b, b_depot_id b, b_last_changed b))
                  (budget_overview_from s))"
    unfolding set_budget_overview by blast
  from i r have "b_depot_id b = i" by (simp add: budget_overview_select_def)
  with r no_plans_group [OF assms, of "b_budget b" "b_last_changed b"]
  show "bo_monthly_expenses r = None" and "bo_remaining_budget r = None"
    by (simp_all add: budget_overview_select_def)
next
  fix b assume b: "b \<in> set (savings_plans_budget s)" and i: "b_depot_id b = i"
  have "budget_overview_select ((b_budget b, b_depot_id b, b_last_changed b),
                filter (\<lambda>r. budget_overview_key r
                              = (b_budget b, b_depot_id b, b_last_changed b))
                  (budget_overview_from s)) \<in> set (savings_plans_budget_overview s)"
    unfolding set_budget_overview using b by (rule imageI)
  with i no_plans_group [OF assms, of "b_budget b" "b_last_changed b"]
  show "\<lparr>bo_budget = b_budget b, bo_depot_id = i, bo_last_changed = b_last_changed b,
          bo_monthly_expenses = None, bo_remaining_budget = None\<rparr>
          \<in> set (savings_plans_budget_overview s)"
    by (simp add: budget_overview_select_def)
qed

theorem no_plans_null_budget_witness:
  "depot_plans school 8 = []
   \<and> \<lparr>bo_budget = 250, bo_depot_id = 8, bo_last_changed = 21,
       bo_monthly_expenses = None, bo_remaining_budget = None\<rparr>
       \<in> set (savings_plans_budget_overview school)"
proof -
  have h: "depot_plans school 8 = []" by (simp add: depot_plans_def school_def)
  have "\<lparr>b_depot_id = 8, b_budget = 250, b_last_changed = 21\<rparr>
          \<in> set (savings_plans_budget school)"
    by (simp add: school_def)
  with no_plans_null_budget [OF h] h show ?thesis by fastforce
qed

lemma own_budget_group:
  assumes pk: "distinct (map b_depot_id (savings_plans_budget s))"
    and b: "b \<in> set (savings_plans_budget s)"
    and plans: "depot_plans s (b_depot_id b) \<noteq> []"
  shows "filter (\<lambda>r. budget_overview_key r = (b_budget b, b_depot_id b, b_last_changed b))
           (budget_overview_from s)
         = map (\<lambda>p. (b, Some p)) (depot_plans s (b_depot_id b))"
proof -
  let ?h = "\<lambda>x. case filter (\<lambda>dsp. sp_depot_id dsp = b_depot_id x) (savings_plans s) of
                   [] \<Rightarrow> [(x, None)]
                 | m # ms \<Rightarrow> map (\<lambda>y. (x, Some y)) (m # ms)"
  have fst_row: "fst r = y" if "r \<in> set (?h y)" for r y
    using that by (auto simp: left_join_row split: if_splits)
  have "budget_overview_key r = (b_budget b, b_depot_id b, b_last_changed b)
          \<longleftrightarrow> b_depot_id y = b_depot_id b"
    if y: "y \<in> set (savings_plans_budget s)" and r: "r \<in> set (?h y)" for y r
  proof
    assume "budget_overview_key r = (b_budget b, b_depot_id b, b_last_changed b)"
    with fst_row [OF r] show "b_depot_id y = b_depot_id b"
      by (simp add: budget_overview_key_def)
  next
    assume "b_depot_id y = b_depot_id b"
    with pk y b have "y = b" by (meson distinct_map inj_onD)
    with fst_row [OF r] show "budget_overview_key r = (b_budget b, b_depot_id b, b_last_changed b)"
      by (simp add: budget_overview_key_def)
  qed
  from filter_concat_own [where k = b_depot_id and h = ?h, OF pk b this]
  have "filter (\<lambda>r. budget_overview_key r = (b_budget b, b_depot_id b, b_last_changed b))
          (budget_overview_from s) = ?h b"
    by (simp add: budget_overview_from_def left_join_def)
  with plans show ?thesis
    by (simp add: left_join_row depot_plans_def)
qed

lemma own_group_expenses:
  assumes "depot_plans s i \<noteq> []"
  shows "monthly_expenses (map (\<lambda>p. (b, Some p)) (depot_plans s i)) = Some (monthly_cost s i)"
proof -
  let ?w = "\<lambda>p. sp_worth p * sp_to_per_month (sp_period p)"
  have "map (\<lambda>r. map_option ?w (snd r)) (map (\<lambda>p. (b, Some p)) (depot_plans s i))
          = map Some (map ?w (depot_plans s i))"
    by simp
  with assms show ?thesis
    unfolding monthly_expenses_def monthly_cost_def
    by (simp only: sql_sum_values map_is_Nil_conv not_False_eq_True)
qed

text \<open>
  C5, as stated, fails at depot 8 of the school, which has a monthly budget of 250 and no
  savings plan: the overview reports no remaining budget (\<open>NULL\<close>), not 250 - 0.
\<close>

theorem remaining_budget_counterexample:
  "map (\<lambda>r. (bo_depot_id r, bo_budget r, bo_remaining_budget r))
     (savings_plans_budget_overview school) = [(7, 250, Some 150), (8, 250, None)]
   \<and> monthly_cost school 8 = 0"
  by (simp add: savings_plans_budget_overview_def group_by_def budget_overview_from_def
      left_join_def budget_overview_key_def budget_overview_select_def monthly_expenses_def
      sql_sum_def monthly_cost_def depot_plans_def school_def)

text \<open>
  C5, amended: when the budget rows have different depots (the primary key) and the
  depot of a budget row has at least one savings plan, the overview has the row of that
  budget with \<open>monthly_expenses\<close> the sum over the depot's savings plans of worth times the
  per-month factor of the plan's period (weekly 4.345, biweekly 2.17, monthly 1,
  quarterly 1/3, yearly 1/12) and \<open>remaining_budget\<close> the budget minus that sum, and every
  row of the overview for that depot reports this remaining budget.
\<close>

theorem budget_overview_remaining:
  assumes "distinct (map b_depot_id (savings_plans_budget s))"
    and "b \<in> set (savings_plans_budget s)"
    and "depot_plans s (b_depot_id b) \<noteq> []"
  shows "\<lparr>bo_budget = b_budget b, bo_depot_id = b_depot_id b,
           bo_last_changed = b_last_changed b,
           bo_monthly_expenses = Some (monthly_cost s (b_depot_id b)),
           bo_remaining_budget = Some (of_int (b_budget b) - monthly_cost s (b_depot_id b))\<rparr>
           \<in> set (savings_plans_budget_overview s)
         \<and> (\<forall>r \<in> set (savings_plans_budget_overview s).
               bo_depot_id r = b_depot_id b \<longrightarrow>
                 bo_remaining_budget r
                   = Some (of_int (bo_budget r) - monthly_cost s (bo_depot_id r)))"
proof (intro conjI ballI impI)
  let ?row = "\<lambda>b. budget_overview_select ((b_budget b, b_depot_id b, b_last_changed b),
                filter (\<lambda>r. budget_overview_key r
                              = (b_budget b, b_depot_id b, b_last_changed b))
                  (budget_overview_from s))"
  have row: "?row b = \<lparr>bo_budget = b_budget b, bo_depot_id = b_depot_id b,
           bo_last_changed = b_last_changed b,
           bo_monthly_expenses = Some (monthly_cost s (b_depot_id b)),
           bo_remaining_budget = Some (of_int (b_budget b) - monthly_cost s (b_depot_id b))\<rparr>"
    by (simp add: budget_overview_select_def own_budget_group [OF assms]
        own_group_expenses [OF assms(3)])
  have "?row b \<in> set (savings_plans_budget_overview s)"
    unfolding set_budget_overview using assms(2) by (rule imageI)
  then show "\<lparr>bo_budget = b_budget b, bo_depot_id = b_depot_id b,
           bo_last_changed = b_last_changed b,
           bo_monthly_expenses = Some (monthly_cost s (b_depot_id b)),
           bo_remaining_budget = Some (of_int (b_budget b) - monthly_cost s (b_depot_id b))\<rparr>
           \<in> set (savings_plans_budget_overview s)"
    by (simp only: row)
  fix r assume "r \<in> set (savings_plans_budget_overview s)"
    and i: "bo_depot_id r = b_depot_id b"
  then obtain b' where b': "b' \<in> set (savings_plans_budget s)" and r: "r = ?row b'"
    unfolding set_budget_overview by blast
  from i r have "b_depot_id b' = b_depot_id b" by (simp add: budget_overview_select_def)
  with assms(1,2) b' have "b' = b" by (meson distinct_map inj_onD)
  with r row show "bo_remaining_budget r
                     = Some (of_int (bo_budget r) - monthly_cost s (bo_depot_id r))"
    by simp
qed

theorem budget_overview_remaining_witness:
  "distinct (map b_depot_id (savings_plans_budget school))
   \<and> \<lparr>b_depot_id = 7, b_budget = 250, b_last_changed = 20\<rparr> \<in> set (savings_plans_budget school)
   \<and> depot_plans school 7 = [\<lparr>sp_depot_id = 7, sp_worth = 100, sp_period = Monthly\<rparr>]
   \<and> \<lparr>bo_budget = 250, bo_depot_id = 7, bo_last_changed = 20,
       bo_monthly_expenses = Some 100, bo_remaining_budget = Some 150\<rparr>
       \<in> set (savings_plans_budget_overview school)"
proof -
  have pk: "distinct (map b_depot_id (savings_plans_budget school))"
    by (simp add: school_def)
  have b: "\<lparr>b_depot_id = 7, b_budget = 250, b_last_changed = 20\<rparr>
             \<in> set (savings_plans_budget school)"
    by (simp add: school_def)
  have plans: "depot_plans school 7 = [\<lparr>sp_depot_id = 7, sp_worth = 100, sp_period = Monthly\<rparr>]"
    by (simp add: depot_plans_def school_def)
  then have ne: "depot_plans school (b_depot_id \<lparr>b_depot_id = 7, b_budget = 250, b_last_changed = 20\<rparr>) \<noteq> []"
    by simp
  have cost: "monthly_cost school 7 = 100" by (simp add: monthly_cost_def plans)
  from budget_overview_remaining [OF pk b ne] pk b plans cost show ?thesis by simp
qed

section \<open>The overview counts\<close>

lemma group_by_iff:
  "(k, g) \<in> set (group_by key rs) \<longleftrightarrow> k \<in> key ` set rs \<and> g = filter (\<lambda>r. key r = k) rs"
  by (auto simp: set_group_by)

lemma group_nonempty: "k \<in> key ` set rs \<Longrightarrow> filter (\<lambda>r. key r = k) rs \<noteq> []"
  by (auto simp: filter_empty_conv)

lemma count_distinct_ids:
  "count_distinct (map (\<lambda>r. map_option f (proj r)) g)
     = card (f ` {x. \<exists>r \<in> set g. proj r = Some x})"
proof -
  have "Some v \<in> set (map (\<lambda>r. map_option f (proj r)) g)
          \<longleftrightarrow> v \<in> f ` {x. \<exists>r \<in> set g. proj r = Some x}" for v
  proof
    assume "Some v \<in> set (map (\<lambda>r. map_option f (proj r)) g)"
    then obtain r where r: "r \<in> set g" and "Some v = map_option f (proj r)" by auto
    then obtain x where "proj r = Some x" and "f x = v" by (cases "proj r") auto
    with r show "v \<in> f ` {x. \<exists>r \<in> set g. proj r = Some x}" by blast
  next
    assume "v \<in> f ` {x. \<exists>r \<in> set g. proj r = Some x}"
    then obtain x r where "r \<in> set g" and "proj r = Some x" and "v = f x" by blast
    then have "map_option f (proj r) = Some v" by simp
    with \<open>r \<in> set g\<close> show "Some v \<in> set (map (\<lambda>r. map_option f (proj r)) g)"
      by (metis (no_types, lifting) image_eqI set_map)
  qed
  then have "{v. Some v \<in> set (map (\<lambda>r. map_option f (proj r)) g)}
          = f ` {x. \<exists>r \<in> set g. proj r = Some x}"
    by blast
  then show ?thesis by (simp only: count_distinct_card)
qed

lemma card_ids_length: "distinct (map f xs) \<Longrightarrow> card (f ` set (filter P xs)) = length (filter P xs)"
proof -
  assume "distinct (map f xs)"
  then have "distinct (map f (filter P xs))" by (rule distinct_map_filter)
  then have "card (set (map f (filter P xs))) = length (map f (filter P xs))"
    by (rule distinct_card)
  then show ?thesis by simp
qed

subsection \<open>The joins of the admin overview\<close>

lemma admin_users_roles_iff:
  "a \<in> set (admin_users_roles s) \<longleftrightarrow> fst a \<in> set (auth_users s) \<and> snd a = roles_of s (fst a)"
  by (cases a) (auto simp: admin_users_roles_def)

lemma admin_row_user:
  assumes "x \<in> set (admin_overview_from s)"
  shows "fst (fst (fst x)) \<in> set (admin_users_roles s)"
proof -
  obtain a dv pv tv where x: "x = (((a, dv), pv), tv)" by (metis prod.exhaust)
  with assms have "((a, dv), pv) \<in> set (admin_join_positions s)"
    unfolding admin_overview_from_def by (auto dest: left_join_fst)
  then have "(a, dv) \<in> set (admin_join_depots s)"
    unfolding admin_join_positions_def by (rule left_join_fst)
  then have "a \<in> set (admin_users_roles s)"
    unfolding admin_join_depots_def by (rule left_join_fst)
  with x show ?thesis by simp
qed

lemma admin_row_depot:
  assumes "x \<in> set (admin_overview_from s)" and "snd (fst (fst x)) = Some d"
  shows "d \<in> set (depots s) \<and> au_id (fst (fst (fst (fst x)))) \<in> set (d_users d)"
proof -
  obtain a dv pv tv where x: "x = (((a, dv), pv), tv)" by (metis prod.exhaust)
  with assms have "((a, Some d), pv) \<in> set (admin_join_positions s)"
    unfolding admin_overview_from_def by (auto dest: left_join_fst)
  then have "(a, Some d) \<in> set (admin_join_depots s)"
    unfolding admin_join_positions_def by (rule left_join_fst)
  then show ?thesis
    by (simp add: x admin_join_depots_def left_join_Some_iff)
qed

lemma admin_row_position:
  assumes "x \<in> set (admin_overview_from s)" and "snd (fst x) = Some p"
  shows "p \<in> set (positions s)
         \<and> (\<exists>d. snd (fst (fst x)) = Some d \<and> d_id d = pos_depot_id p)"
proof -
  obtain a dv pv tv where x: "x = (((a, dv), pv), tv)" by (metis prod.exhaust)
  with assms have "((a, dv), Some p) \<in> set (admin_join_positions s)"
    unfolding admin_overview_from_def by (auto dest: left_join_fst)
  then show ?thesis
    by (cases dv) (simp_all add: x admin_join_positions_def left_join_Some_iff)
qed

lemma admin_row_transaction:
  assumes "x \<in> set (admin_overview_from s)" and "snd x = Some t"
  shows "t \<in> set (transactions s)
         \<and> (\<exists>d. snd (fst (fst x)) = Some d \<and> d_id d = t_depot_id t)"
proof -
  obtain a dv pv tv where x: "x = (((a, dv), pv), tv)" by (metis prod.exhaust)
  with assms have "(((a, dv), pv), Some t) \<in> set (admin_overview_from s)" by simp
  then show ?thesis
    by (cases dv) (simp_all add: x admin_overview_from_def left_join_Some_iff)
qed

lemma admin_rows_of_depot:
  assumes "a \<in> set (admin_users_roles s)" and "d \<in> set (depots s)"
    and "au_id (fst a) \<in> set (d_users d)"
  shows "(a, Some d) \<in> set (admin_join_depots s)"
    and "\<exists>pv. ((a, Some d), pv) \<in> set (admin_join_positions s)"
    and "\<exists>pv tv. (((a, Some d), pv), tv) \<in> set (admin_overview_from s)"
    and "p \<in> set (positions s) \<Longrightarrow> d_id d = pos_depot_id p \<Longrightarrow>
         \<exists>tv. (((a, Some d), Some p), tv) \<in> set (admin_overview_from s)"
    and "t \<in> set (transactions s) \<Longrightarrow> d_id d = t_depot_id t \<Longrightarrow>
         \<exists>pv. (((a, Some d), pv), Some t) \<in> set (admin_overview_from s)"
proof -
  show j1: "(a, Some d) \<in> set (admin_join_depots s)"
    using assms by (simp add: admin_join_depots_def left_join_Some_iff)
  from left_join_total [OF j1]
  show j2: "\<exists>pv. ((a, Some d), pv) \<in> set (admin_join_positions s)"
    unfolding admin_join_positions_def .
  then obtain pv where pv: "((a, Some d), pv) \<in> set (admin_join_positions s)" ..
  from left_join_total [OF pv]
  show "\<exists>pv tv. (((a, Some d), pv), tv) \<in> set (admin_overview_from s)"
    unfolding admin_overview_from_def by blast
  show "\<exists>tv. (((a, Some d), Some p), tv) \<in> set (admin_overview_from s)"
    if "p \<in> set (positions s)" and "d_id d = pos_depot_id p"
  proof -
    from that j1 have "((a, Some d), Some p) \<in> set (admin_join_positions s)"
      by (simp add: admin_join_positions_def left_join_Some_iff)
    from left_join_total [OF this] show ?thesis
      unfolding admin_overview_from_def .
  qed
  show "\<exists>pv. (((a, Some d), pv), Some t) \<in> set (admin_overview_from s)"
    if "t \<in> set (transactions s)" and "d_id d = t_depot_id t"
  proof -
    from that pv have "(((a, Some d), pv), Some t) \<in> set (admin_overview_from s)"
      by (simp add: admin_overview_from_def left_join_Some_iff)
    then show ?thesis ..
  qed
qed

lemma admin_overview_key_user:
  "admin_overview_key x = admin_overview_key y \<Longrightarrow>
   au_id (fst (fst (fst (fst x)))) = au_id (fst (fst (fst (fst y))))"
  by (auto simp: admin_overview_key_def split: prod.splits)

lemma admin_overview_key_fst:
  "fst (admin_overview_key x) = au_id (fst (fst (fst (fst x))))"
  by (auto simp: admin_overview_key_def split: prod.splits)

lemma admin_overview_key_cong:
  "fst (fst (fst x)) = fst (fst (fst y)) \<Longrightarrow> admin_overview_key x = admin_overview_key y"
  by (auto simp: admin_overview_key_def split: prod.splits)


lemma admin_rows_of_user:
  assumes "a \<in> set (admin_users_roles s)"
  shows "\<exists>x \<in> set (admin_overview_from s). fst (fst (fst x)) = a"
proof -
  from left_join_total [OF assms] obtain dv where "(a, dv) \<in> set (admin_join_depots s)"
    unfolding admin_join_depots_def by blast
  from left_join_total [OF this] obtain pv where "((a, dv), pv) \<in> set (admin_join_positions s)"
    unfolding admin_join_positions_def by blast
  from left_join_total [OF this] obtain tv
    where "(((a, dv), pv), tv) \<in> set (admin_overview_from s)"
    unfolding admin_overview_from_def by blast
  then show ?thesis by force
qed

lemma admin_group_depots:
  assumes "k \<in> admin_overview_key ` set (admin_overview_from s)"
  shows "{d. \<exists>x \<in> set (filter (\<lambda>x. admin_overview_key x = k) (admin_overview_from s)).
               snd (fst (fst x)) = Some d}
         = set (user_depots s (fst k))"
proof (intro set_eqI iffI)
  fix d
  assume "d \<in> {d. \<exists>x \<in> set (filter (\<lambda>x. admin_overview_key x = k) (admin_overview_from s)).
                     snd (fst (fst x)) = Some d}"
  then obtain x where x: "x \<in> set (admin_overview_from s)" and k: "admin_overview_key x = k"
    and d: "snd (fst (fst x)) = Some d" by auto
  from admin_row_depot [OF x d] k show "d \<in> set (user_depots s (fst k))"
    by (auto simp: user_depots_def admin_overview_key_fst)
next
  fix d assume "d \<in> set (user_depots s (fst k))"
  then have d: "d \<in> set (depots s)" and m: "fst k \<in> set (d_users d)"
    by (simp_all add: user_depots_def)
  from assms obtain x0 where x0: "x0 \<in> set (admin_overview_from s)"
    and k: "admin_overview_key x0 = k" by auto
  let ?a = "fst (fst (fst x0))"
  from m k have "au_id (fst ?a) \<in> set (d_users d)" by (auto simp: admin_overview_key_fst)
  from admin_rows_of_depot(3) [OF admin_row_user [OF x0] d this]
  obtain pv tv where x: "(((?a, Some d), pv), tv) \<in> set (admin_overview_from s)" by blast
  have "admin_overview_key (((?a, Some d), pv), tv) = k"
    using k by (simp add: admin_overview_key_cong [of "(((?a, Some d), pv), tv)" x0])
  with x have "(((?a, Some d), pv), tv)
                 \<in> set (filter (\<lambda>x. admin_overview_key x = k) (admin_overview_from s))"
    by simp
  moreover have "snd (fst (fst (((?a, Some d), pv), tv))) = Some d" by simp
  ultimately show "d \<in> {d. \<exists>x \<in> set (filter (\<lambda>x. admin_overview_key x = k)
                                (admin_overview_from s)). snd (fst (fst x)) = Some d}"
    by blast
qed

lemma admin_group_positions:
  assumes "k \<in> admin_overview_key ` set (admin_overview_from s)"
  shows "{p. \<exists>x \<in> set (filter (\<lambda>x. admin_overview_key x = k) (admin_overview_from s)).
               snd (fst x) = Some p}
         = set (user_positions s (fst k))"
proof (intro set_eqI iffI)
  fix p
  assume "p \<in> {p. \<exists>x \<in> set (filter (\<lambda>x. admin_overview_key x = k) (admin_overview_from s)).
                     snd (fst x) = Some p}"
  then obtain x where x: "x \<in> set (admin_overview_from s)" and k: "admin_overview_key x = k"
    and p: "snd (fst x) = Some p" by auto
  from admin_row_position [OF x p] obtain d where p': "p \<in> set (positions s)"
    and d: "snd (fst (fst x)) = Some d" and pd: "d_id d = pos_depot_id p" by blast
  from admin_row_depot [OF x d] k have "d \<in> set (user_depots s (fst k))"
    by (auto simp: user_depots_def admin_overview_key_fst)
  with p' pd show "p \<in> set (user_positions s (fst k))"
    by (auto simp: user_positions_def)
next
  fix p assume "p \<in> set (user_positions s (fst k))"
  then obtain d where p: "p \<in> set (positions s)" and pd: "d_id d = pos_depot_id p"
    and d: "d \<in> set (depots s)" and m: "fst k \<in> set (d_users d)"
    by (auto simp: user_positions_def user_depots_def)
  from assms obtain x0 where x0: "x0 \<in> set (admin_overview_from s)"
    and k: "admin_overview_key x0 = k" by auto
  let ?a = "fst (fst (fst x0))"
  from m k have "au_id (fst ?a) \<in> set (d_users d)" by (auto simp: admin_overview_key_fst)
  from admin_rows_of_depot(4) [OF admin_row_user [OF x0] d this p pd]
  obtain tv where x: "(((?a, Some d), Some p), tv) \<in> set (admin_overview_from s)" by blast
  have "admin_overview_key (((?a, Some d), Some p), tv) = k"
    using k by (simp add: admin_overview_key_cong [of "(((?a, Some d), Some p), tv)" x0])
  with x have "(((?a, Some d), Some p), tv)
                 \<in> set (filter (\<lambda>x. admin_overview_key x = k) (admin_overview_from s))"
    by simp
  moreover have "snd (fst (((?a, Some d), Some p), tv)) = Some p" by simp
  ultimately show "p \<in> {p. \<exists>x \<in> set (filter (\<lambda>x. admin_overview_key x = k)
                                (admin_overview_from s)). snd (fst x) = Some p}"
    by blast
qed

lemma admin_group_transactions:
  assumes "k \<in> admin_overview_key ` set (admin_overview_from s)"
  shows "{t. \<exists>x \<in> set (filter (\<lambda>x. admin_overview_key x = k) (admin_overview_from s)).
               snd x = Some t}
         = set (user_transactions s (fst k))"
proof (intro set_eqI iffI)
  fix t
  assume "t \<in> {t. \<exists>x \<in> set (filter (\<lambda>x. admin_overview_key x = k) (admin_overview_from s)).
                     snd x = Some t}"
  then obtain x where x: "x \<in> set (admin_overview_from s)" and k: "admin_overview_key x = k"
    and t: "snd x = Some t" by auto
  from admin_row_transaction [OF x t] obtain d where t': "t \<in> set (transactions s)"
    and d: "snd (fst (fst x)) = Some d" and td: "d_id d = t_depot_id t" by blast
  from admin_row_depot [OF x d] k have "d \<in> set (user_depots s (fst k))"
    by (auto simp: user_depots_def admin_overview_key_fst)
  with t' td show "t \<in> set (user_transactions s (fst k))"
    by (auto simp: user_transactions_def)
next
  fix t assume "t \<in> set (user_transactions s (fst k))"
  then obtain d where t: "t \<in> set (transactions s)" and td: "d_id d = t_depot_id t"
    and d: "d \<in> set (depots s)" and m: "fst k \<in> set (d_users d)"
    by (auto simp: user_transactions_def user_depots_def)
  from assms obtain x0 where x0: "x0 \<in> set (admin_overview_from s)"
    and k: "admin_overview_key x0 = k" by auto
  let ?a = "fst (fst (fst x0))"
  from m k have "au_id (fst ?a) \<in> set (d_users d)" by (auto simp: admin_overview_key_fst)
  from admin_rows_of_depot(5) [OF admin_row_user [OF x0] d this t td]
  obtain pv where x: "(((?a, Some d), pv), Some t) \<in> set (admin_overview_from s)" by blast
  have "admin_overview_key (((?a, Some d), pv), Some t) = k"
    using k by (simp add: admin_overview_key_cong [of "(((?a, Some d), pv), Some t)" x0])
  with x have "(((?a, Some d), pv), Some t)
                 \<in> set (filter (\<lambda>x. admin_overview_key x = k) (admin_overview_from s))"
    by simp
  moreover have "snd (((?a, Some d), pv), Some t) = Some t" by simp
  ultimately show "t \<in> {t. \<exists>x \<in> set (filter (\<lambda>x. admin_overview_key x = k)
                                (admin_overview_from s)). snd x = Some t}"
    by blast
qed

lemma admin_select_row:
  assumes "r \<in> set (admin_overview_select (k, g))"
  shows "ao_id r = fst k"
    and "ao_depot_count r = count_distinct (map (\<lambda>x. map_option d_id (snd (fst (fst x)))) g)"
    and "ao_position_count r = count_distinct (map (\<lambda>x. map_option pos_id (snd (fst x))) g)"
    and "ao_transaction_count r = count_distinct (map (\<lambda>x. map_option t_id (snd x)) g)"
  using assms
  by (auto simp: admin_overview_select_def split: prod.splits list.splits)

lemma admin_select_nonempty: "g \<noteq> [] \<Longrightarrow> admin_overview_select (k, g) \<noteq> []"
  by (auto simp: admin_overview_select_def split: prod.splits list.splits)

lemma admin_overview_rows:
  assumes "get_admin_overview ctx s = Inr rows"
  shows "r \<in> set rows \<longleftrightarrow>
           (\<exists>k \<in> admin_overview_key ` set (admin_overview_from s).
              r \<in> set (admin_overview_select
                         (k, filter (\<lambda>x. admin_overview_key x = k) (admin_overview_from s))))"
proof -
  from assms have "rows = concat (map admin_overview_select
                            (group_by admin_overview_key (admin_overview_from s)))"
    by (simp add: get_admin_overview_def split: if_splits)
  then show ?thesis by (auto simp: set_group_by)
qed

lemma admin_overview_counts:
  assumes "get_admin_overview ctx s = Inr rows" and "r \<in> set rows"
  shows "ao_depot_count r = card (d_id ` set (user_depots s (ao_id r)))"
    and "ao_position_count r = card (pos_id ` set (user_positions s (ao_id r)))"
    and "ao_transaction_count r = card (t_id ` set (user_transactions s (ao_id r)))"
proof -
  from assms(2) obtain k where k: "k \<in> admin_overview_key ` set (admin_overview_from s)"
    and r: "r \<in> set (admin_overview_select
                        (k, filter (\<lambda>x. admin_overview_key x = k) (admin_overview_from s)))"
    unfolding admin_overview_rows [OF assms(1)] by blast
  note row = admin_select_row [OF r]
  show "ao_depot_count r = card (d_id ` set (user_depots s (ao_id r)))"
    by (simp only: row count_distinct_ids admin_group_depots [OF k])
  show "ao_position_count r = card (pos_id ` set (user_positions s (ao_id r)))"
    by (simp only: row count_distinct_ids admin_group_positions [OF k])
  show "ao_transaction_count r = card (t_id ` set (user_transactions s (ao_id r)))"
    by (simp only: row count_distinct_ids admin_group_transactions [OF k])
qed

lemma admin_overview_users:
  assumes "get_admin_overview ctx s = Inr rows"
  shows "ao_id ` set rows = au_id ` set (auth_users s)"
proof (intro set_eqI iffI)
  fix u assume "u \<in> ao_id ` set rows"
  then obtain r where r: "r \<in> set rows" and u: "u = ao_id r" by auto
  from r obtain k where k: "k \<in> admin_overview_key ` set (admin_overview_from s)"
    and r': "r \<in> set (admin_overview_select
                        (k, filter (\<lambda>x. admin_overview_key x = k) (admin_overview_from s)))"
    unfolding admin_overview_rows [OF assms] by blast
  from k obtain x where x: "x \<in> set (admin_overview_from s)" and "admin_overview_key x = k"
    by auto
  with admin_select_row(1) [OF r'] u have "u = au_id (fst (fst (fst (fst x))))"
    by (auto simp: admin_overview_key_fst)
  with admin_row_user [OF x] show "u \<in> au_id ` set (auth_users s)"
    by (auto simp: admin_users_roles_iff)
next
  fix u assume "u \<in> au_id ` set (auth_users s)"
  then obtain au where au: "au \<in> set (auth_users s)" and u: "u = au_id au" by auto
  then have "(au, roles_of s au) \<in> set (admin_users_roles s)"
    by (simp add: admin_users_roles_iff)
  from admin_rows_of_user [OF this] obtain x where x: "x \<in> set (admin_overview_from s)"
    and a: "fst (fst (fst x)) = (au, roles_of s au)" by blast
  let ?k = "admin_overview_key x"
  let ?g = "filter (\<lambda>y. admin_overview_key y = ?k) (admin_overview_from s)"
  from x have k: "?k \<in> admin_overview_key ` set (admin_overview_from s)" by (rule imageI)
  from group_nonempty [OF k] admin_select_nonempty
  obtain r where r: "r \<in> set (admin_overview_select (?k, ?g))"
    by (metis last_in_set)
  with k have "r \<in> set rows" unfolding admin_overview_rows [OF assms] by blast
  moreover from admin_select_row(1) [OF r] a u have "ao_id r = u"
    by (simp add: admin_overview_key_fst)
  ultimately show "u \<in> ao_id ` set rows" by auto
qed


subsection \<open>The joins of the depot overview\<close>

lemma left_join_transfer:
  assumes "(x, v) \<in> set (left_join xs on ys)" and "x' \<in> set xs" and "on x' = on x"
  shows "(x', v) \<in> set (left_join xs on ys)"
  using assms by (cases v) (simp_all add: left_join_Some_iff left_join_None_iff)

lemma depot_row_depot:
  assumes "x \<in> set (depot_overview_from s)"
  shows "fst (fst (fst (fst x))) \<in> set (depots s)"
    and "snd (fst x) = members_of s (fst (fst (fst (fst x))))"
    and "fst (fst x) \<in> set (depot_join_positions s)"
proof -
  obtain d tv pv u bv where x: "x = ((((d, tv), pv), u), bv)" by (metis prod.exhaust)
  with assms have m: "(((d, tv), pv), u) \<in> set (depot_join_members s)"
    unfolding depot_overview_from_def by (auto dest: left_join_fst)
  then show "snd (fst x) = members_of s (fst (fst (fst (fst x))))"
    by (auto simp: x depot_join_members_def)
  from m have p: "((d, tv), pv) \<in> set (depot_join_positions s)"
    by (auto simp: depot_join_members_def)
  then show "fst (fst x) \<in> set (depot_join_positions s)" by (simp add: x)
  from p have "(d, tv) \<in> set (depot_join_transactions s)"
    unfolding depot_join_positions_def by (rule left_join_fst)
  then have "d \<in> set (depots s)"
    unfolding depot_join_transactions_def by (rule left_join_fst)
  then show "fst (fst (fst (fst x))) \<in> set (depots s)" by (simp add: x)
qed

lemma depot_row_transaction:
  assumes "x \<in> set (depot_overview_from s)" and "snd (fst (fst (fst x))) = Some t"
  shows "t \<in> set (transactions s) \<and> t_depot_id t = d_id (fst (fst (fst (fst x))))"
proof -
  obtain d tv pv where x: "fst (fst x) = ((d, tv), pv)" by (metis prod.exhaust)
  with depot_row_depot(3) [OF assms(1)] assms(2)
  have "((d, Some t), pv) \<in> set (depot_join_positions s)" by simp
  then have "(d, Some t) \<in> set (depot_join_transactions s)"
    unfolding depot_join_positions_def by (rule left_join_fst)
  then show ?thesis
    by (simp add: x depot_join_transactions_def left_join_Some_iff)
qed

lemma depot_row_position:
  assumes "x \<in> set (depot_overview_from s)" and "snd (fst (fst x)) = Some p"
  shows "p \<in> set (positions s) \<and> pos_depot_id p = d_id (fst (fst (fst (fst x))))"
proof -
  obtain d tv pv where x: "fst (fst x) = ((d, tv), pv)" by (metis prod.exhaust)
  with depot_row_depot(3) [OF assms(1)] assms(2)
  have "((d, tv), Some p) \<in> set (depot_join_positions s)" by simp
  then show ?thesis
    by (simp add: x depot_join_positions_def left_join_Some_iff)
qed

lemma depot_overview_key_fst: "fst (depot_overview_key x) = d_id (fst (fst (fst (fst x))))"
  by (auto simp: depot_overview_key_def split: prod.splits)

lemma depot_overview_key_cong:
  "fst (fst (fst (fst x))) = fst (fst (fst (fst y))) \<Longrightarrow> snd (fst x) = snd (fst y) \<Longrightarrow>
   snd x = snd y \<Longrightarrow> depot_overview_key x = depot_overview_key y"
  by (auto simp: depot_overview_key_def split: prod.splits)

text \<open>A row of the join stays a row when its transaction and position are exchanged.\<close>

lemma depot_row_exchange:
  assumes x0: "x0 \<in> set (depot_overview_from s)"
    and r: "((fst (fst (fst (fst x0))), tv), pv) \<in> set (depot_join_positions s)"
  shows "((((fst (fst (fst (fst x0))), tv), pv), snd (fst x0)), snd x0)
           \<in> set (depot_overview_from s)"
proof -
  let ?d = "fst (fst (fst (fst x0)))"
  have x0': "(fst x0, snd x0) \<in> set (depot_overview_from s)" using x0 by simp
  from r have "(((?d, tv), pv), snd (fst x0)) \<in> set (depot_join_members s)"
    by (force simp: depot_join_members_def depot_row_depot(2) [OF x0])
  from left_join_transfer [OF x0' [unfolded depot_overview_from_def] this]
  show ?thesis by (simp add: depot_overview_from_def)
qed

lemma depot_group_transactions:
  assumes "k \<in> depot_overview_key ` set (depot_overview_from s)"
  shows "{t. \<exists>x \<in> set (filter (\<lambda>x. depot_overview_key x = k) (depot_overview_from s)).
               snd (fst (fst (fst x))) = Some t}
         = set (depot_transactions s (fst k))"
proof (intro set_eqI iffI)
  fix t
  assume "t \<in> {t. \<exists>x \<in> set (filter (\<lambda>x. depot_overview_key x = k) (depot_overview_from s)).
                     snd (fst (fst (fst x))) = Some t}"
  then obtain x where x: "x \<in> set (depot_overview_from s)" and k: "depot_overview_key x = k"
    and t: "snd (fst (fst (fst x))) = Some t" by auto
  from depot_row_transaction [OF x t] k show "t \<in> set (depot_transactions s (fst k))"
    by (auto simp: depot_transactions_def depot_overview_key_fst)
next
  fix t assume "t \<in> set (depot_transactions s (fst k))"
  then have t: "t \<in> set (transactions s)" and tk: "t_depot_id t = fst k"
    by (simp_all add: depot_transactions_def)
  from assms obtain x0 where x0: "x0 \<in> set (depot_overview_from s)"
    and k: "depot_overview_key x0 = k" by auto
  let ?d = "fst (fst (fst (fst x0)))"
  from tk k have "t_depot_id t = d_id ?d" by (auto simp: depot_overview_key_fst)
  with t depot_row_depot(1) [OF x0] have "(?d, Some t) \<in> set (depot_join_transactions s)"
    by (simp add: depot_join_transactions_def left_join_Some_iff)
  from left_join_total [OF this] obtain pv
    where "((?d, Some t), pv) \<in> set (depot_join_positions s)"
    unfolding depot_join_positions_def by blast
  from depot_row_exchange [OF x0 this]
  have x: "((((?d, Some t), pv), snd (fst x0)), snd x0) \<in> set (depot_overview_from s)" .
  have "depot_overview_key ((((?d, Some t), pv), snd (fst x0)), snd x0) = k"
    using k by (simp add: depot_overview_key_cong
        [of "((((?d, Some t), pv), snd (fst x0)), snd x0)" x0])
  with x have "((((?d, Some t), pv), snd (fst x0)), snd x0)
                 \<in> set (filter (\<lambda>x. depot_overview_key x = k) (depot_overview_from s))"
    by simp
  moreover have "snd (fst (fst (fst ((((?d, Some t), pv), snd (fst x0)), snd x0)))) = Some t"
    by simp
  ultimately show "t \<in> {t. \<exists>x \<in> set (filter (\<lambda>x. depot_overview_key x = k)
                                (depot_overview_from s)). snd (fst (fst (fst x))) = Some t}"
    by blast
qed

lemma depot_group_positions:
  assumes "k \<in> depot_overview_key ` set (depot_overview_from s)"
  shows "{p. \<exists>x \<in> set (filter (\<lambda>x. depot_overview_key x = k) (depot_overview_from s)).
               snd (fst (fst x)) = Some p}
         = set (depot_positions s (fst k))"
proof (intro set_eqI iffI)
  fix p
  assume "p \<in> {p. \<exists>x \<in> set (filter (\<lambda>x. depot_overview_key x = k) (depot_overview_from s)).
                     snd (fst (fst x)) = Some p}"
  then obtain x where x: "x \<in> set (depot_overview_from s)" and k: "depot_overview_key x = k"
    and p: "snd (fst (fst x)) = Some p" by auto
  from depot_row_position [OF x p] k show "p \<in> set (depot_positions s (fst k))"
    by (auto simp: depot_positions_def depot_overview_key_fst)
next
  fix p assume "p \<in> set (depot_positions s (fst k))"
  then have p: "p \<in> set (positions s)" and pk: "pos_depot_id p = fst k"
    by (simp_all add: depot_positions_def)
  from assms obtain x0 where x0: "x0 \<in> set (depot_overview_from s)"
    and k: "depot_overview_key x0 = k" by auto
  let ?d = "fst (fst (fst (fst x0)))"
  from pk k have pd: "pos_depot_id p = d_id ?d" by (auto simp: depot_overview_key_fst)
  from left_join_total [OF depot_row_depot(1) [OF x0]] obtain tv
    where "(?d, tv) \<in> set (depot_join_transactions s)"
    unfolding depot_join_transactions_def by blast
  with p pd have "((?d, tv), Some p) \<in> set (depot_join_positions s)"
    by (simp add: depot_join_positions_def left_join_Some_iff)
  from depot_row_exchange [OF x0 this]
  have x: "((((?d, tv), Some p), snd (fst x0)), snd x0) \<in> set (depot_overview_from s)" .
  have "depot_overview_key ((((?d, tv), Some p), snd (fst x0)), snd x0) = k"
    using k by (simp add: depot_overview_key_cong
        [of "((((?d, tv), Some p), snd (fst x0)), snd x0)" x0])
  with x have "((((?d, tv), Some p), snd (fst x0)), snd x0)
                 \<in> set (filter (\<lambda>x. depot_overview_key x = k) (depot_overview_from s))"
    by simp
  moreover have "snd (fst (fst ((((?d, tv), Some p), snd (fst x0)), snd x0))) = Some p"
    by simp
  ultimately show "p \<in> {p. \<exists>x \<in> set (filter (\<lambda>x. depot_overview_key x = k)
                                (depot_overview_from s)). snd (fst (fst x)) = Some p}"
    by blast
qed

lemma depot_rows_of_depot:
  assumes "d \<in> set (depots s)"
  shows "\<exists>x \<in> set (depot_overview_from s). fst (fst (fst (fst x))) = d"
proof -
  from left_join_total [OF assms] obtain tv where "(d, tv) \<in> set (depot_join_transactions s)"
    unfolding depot_join_transactions_def by blast
  from left_join_total [OF this] obtain pv
    where "((d, tv), pv) \<in> set (depot_join_positions s)"
    unfolding depot_join_positions_def by blast
  then have "(((d, tv), pv), members_of s d) \<in> set (depot_join_members s)"
    by (force simp: depot_join_members_def)
  from left_join_total [OF this] obtain bv
    where "((((d, tv), pv), members_of s d), bv) \<in> set (depot_overview_from s)"
    unfolding depot_overview_from_def by blast
  then show ?thesis by force
qed

lemma depot_select_row:
  assumes "r \<in> set (depot_overview_select (k, g))"
  shows "do_id r = fst k"
    and "do_transaction_count r
           = count_distinct (map (\<lambda>x. map_option t_id (snd (fst (fst (fst x))))) g)"
    and "do_position_count r
           = count_distinct (map (\<lambda>x. map_option pos_id (snd (fst (fst x)))) g)"
  using assms
  by (auto simp: depot_overview_select_def Let_def split: prod.splits list.splits)

lemma depot_select_nonempty: "g \<noteq> [] \<Longrightarrow> depot_overview_select (k, g) \<noteq> []"
  by (auto simp: depot_overview_select_def Let_def split: prod.splits list.splits)

lemma depot_overview_rows:
  assumes "get_depot_overview ctx s = Inr rows"
  shows "r \<in> set rows \<longleftrightarrow>
           (\<exists>k \<in> depot_overview_key ` set (depot_overview_from s).
              r \<in> set (depot_overview_select
                         (k, filter (\<lambda>x. depot_overview_key x = k) (depot_overview_from s))))"
proof -
  from assms have "rows = concat (map depot_overview_select
                            (group_by depot_overview_key (depot_overview_from s)))"
    by (simp add: get_depot_overview_def split: if_splits)
  then show ?thesis by (auto simp: set_group_by)
qed

lemma depot_overview_counts:
  assumes "get_depot_overview ctx s = Inr rows" and "r \<in> set rows"
  shows "do_transaction_count r = card (t_id ` set (depot_transactions s (do_id r)))"
    and "do_position_count r = card (pos_id ` set (depot_positions s (do_id r)))"
proof -
  from assms(2) obtain k where k: "k \<in> depot_overview_key ` set (depot_overview_from s)"
    and r: "r \<in> set (depot_overview_select
                        (k, filter (\<lambda>x. depot_overview_key x = k) (depot_overview_from s)))"
    unfolding depot_overview_rows [OF assms(1)] by blast
  note row = depot_select_row [OF r]
  show "do_transaction_count r = card (t_id ` set (depot_transactions s (do_id r)))"
    by (simp only: row count_distinct_ids depot_group_transactions [OF k])
  show "do_position_count r = card (pos_id ` set (depot_positions s (do_id r)))"
    by (simp only: row count_distinct_ids depot_group_positions [OF k])
qed

lemma depot_overview_depots:
  assumes "get_depot_overview ctx s = Inr rows"
  shows "do_id ` set rows = d_id ` set (depots s)"
proof (intro set_eqI iffI)
  fix i assume "i \<in> do_id ` set rows"
  then obtain r where r: "r \<in> set rows" and i: "i = do_id r" by auto
  from r obtain k where k: "k \<in> depot_overview_key ` set (depot_overview_from s)"
    and r': "r \<in> set (depot_overview_select
                        (k, filter (\<lambda>x. depot_overview_key x = k) (depot_overview_from s)))"
    unfolding depot_overview_rows [OF assms] by blast
  from k obtain x where x: "x \<in> set (depot_overview_from s)" and "depot_overview_key x = k"
    by auto
  with depot_select_row(1) [OF r'] i have "i = d_id (fst (fst (fst (fst x))))"
    by (auto simp: depot_overview_key_fst)
  with depot_row_depot(1) [OF x] show "i \<in> d_id ` set (depots s)" by auto
next
  fix i assume "i \<in> d_id ` set (depots s)"
  then obtain d where d: "d \<in> set (depots s)" and i: "i = d_id d" by auto
  from depot_rows_of_depot [OF d] obtain x where x: "x \<in> set (depot_overview_from s)"
    and a: "fst (fst (fst (fst x))) = d" by blast
  let ?k = "depot_overview_key x"
  let ?g = "filter (\<lambda>y. depot_overview_key y = ?k) (depot_overview_from s)"
  from x have k: "?k \<in> depot_overview_key ` set (depot_overview_from s)" by (rule imageI)
  from group_nonempty [OF k] depot_select_nonempty
  obtain r where r: "r \<in> set (depot_overview_select (?k, ?g))"
    by (metis last_in_set)
  with k have "r \<in> set rows" unfolding depot_overview_rows [OF assms] by blast
  moreover from depot_select_row(1) [OF r] a i have "do_id r = i"
    by (simp add: depot_overview_key_fst)
  ultimately show "i \<in> do_id ` set rows" by auto
qed


text \<open>
  C6: when \<open>get_admin_overview\<close> returns, it has a row for exactly the users, and the
  counts of a row are the number of different ids among the depots the user belongs to,
  among the positions of those depots and among the transactions of those depots; when
  \<open>get_depot_overview\<close> returns, it has a row for exactly the depots, and the counts of a
  row are the number of different ids among the transactions and among the positions of
  the depot. Where the ids are unique (primary keys) these are the numbers of rows: a
  row that the joins repeat is counted once.
\<close>

theorem overview_counts_exact:
  "(get_admin_overview ctx s = Inr urows \<longrightarrow>
      ao_id ` set urows = au_id ` set (auth_users s)
      \<and> (\<forall>r \<in> set urows.
            ao_depot_count r = card (d_id ` set (user_depots s (ao_id r)))
          \<and> ao_position_count r = card (pos_id ` set (user_positions s (ao_id r)))
          \<and> ao_transaction_count r = card (t_id ` set (user_transactions s (ao_id r)))
          \<and> (distinct (map d_id (depots s)) \<longrightarrow>
               ao_depot_count r = length (user_depots s (ao_id r)))
          \<and> (distinct (map pos_id (positions s)) \<longrightarrow>
               ao_position_count r = length (user_positions s (ao_id r)))
          \<and> (distinct (map t_id (transactions s)) \<longrightarrow>
               ao_transaction_count r = length (user_transactions s (ao_id r)))))
   \<and> (get_depot_overview ctx s = Inr drows \<longrightarrow>
      do_id ` set drows = d_id ` set (depots s)
      \<and> (\<forall>r \<in> set drows.
            do_transaction_count r = card (t_id ` set (depot_transactions s (do_id r)))
          \<and> do_position_count r = card (pos_id ` set (depot_positions s (do_id r)))
          \<and> (distinct (map t_id (transactions s)) \<longrightarrow>
               do_transaction_count r = length (depot_transactions s (do_id r)))
          \<and> (distinct (map pos_id (positions s)) \<longrightarrow>
               do_position_count r = length (depot_positions s (do_id r)))))"
proof (intro conjI impI ballI)
  assume a: "get_admin_overview ctx s = Inr urows"
  show "ao_id ` set urows = au_id ` set (auth_users s)"
    by (rule admin_overview_users [OF a])
  fix r assume r: "r \<in> set urows"
  note c = admin_overview_counts [OF a r]
  show "ao_depot_count r = card (d_id ` set (user_depots s (ao_id r)))" by (rule c)
  show "ao_position_count r = card (pos_id ` set (user_positions s (ao_id r)))" by (rule c)
  show "ao_transaction_count r = card (t_id ` set (user_transactions s (ao_id r)))" by (rule c)
  show "ao_depot_count r = length (user_depots s (ao_id r))"
    if "distinct (map d_id (depots s))"
    using card_ids_length [OF that] by (simp add: c user_depots_def)
  show "ao_position_count r = length (user_positions s (ao_id r))"
    if "distinct (map pos_id (positions s))"
    using card_ids_length [OF that] by (simp add: c user_positions_def)
  show "ao_transaction_count r = length (user_transactions s (ao_id r))"
    if "distinct (map t_id (transactions s))"
    using card_ids_length [OF that] by (simp add: c user_transactions_def)
next
  assume a: "get_depot_overview ctx s = Inr drows"
  show "do_id ` set drows = d_id ` set (depots s)"
    by (rule depot_overview_depots [OF a])
  fix r assume r: "r \<in> set drows"
  note c = depot_overview_counts [OF a r]
  show "do_transaction_count r = card (t_id ` set (depot_transactions s (do_id r)))" by (rule c)
  show "do_position_count r = card (pos_id ` set (depot_positions s (do_id r)))" by (rule c)
  show "do_transaction_count r = length (depot_transactions s (do_id r))"
    if "distinct (map t_id (transactions s))"
    using card_ids_length [OF that] by (simp add: c depot_transactions_def)
  show "do_position_count r = length (depot_positions s (do_id r))"
    if "distinct (map pos_id (positions s))"
    using card_ids_length [OF that] by (simp add: c depot_positions_def)
qed

lemma school_admin_overview:
  "get_admin_overview (as_user 1) school =
     Inr [\<lparr>ao_id = 1, ao_email = ''ada@school'', ao_created_at = 10,
           ao_meta_data = [(''name'', ''Ada'')], ao_user_name = Some ''Ada'',
           ao_banned_until = None, ao_user_roles = Some [Admin],
           ao_role_granted_at = Some [10], ao_depot_count = 0,
           ao_position_count = 0, ao_transaction_count = 0\<rparr>,
          \<lparr>ao_id = 2, ao_email = ''bea@school'', ao_created_at = 11,
           ao_meta_data = [(''name'', ''Bea'')], ao_user_name = Some ''Bea'',
           ao_banned_until = None, ao_user_roles = Some [Teacher],
           ao_role_granted_at = Some [12], ao_depot_count = 0,
           ao_position_count = 0, ao_transaction_count = 0\<rparr>,
          \<lparr>ao_id = 3, ao_email = ''cem@school'', ao_created_at = 12,
           ao_meta_data = [(''name'', ''Cem'')], ao_user_name = Some ''Cem'',
           ao_banned_until = None, ao_user_roles = None,
           ao_role_granted_at = None, ao_depot_count = 2,
           ao_position_count = 3, ao_transaction_count = 3\<rparr>,
          \<lparr>ao_id = 4, ao_email = ''dua@school'', ao_created_at = 13,
           ao_meta_data = [], ao_user_name = None,
           ao_banned_until = None, ao_user_roles = None,
           ao_role_granted_at = None, ao_depot_count = 1,
           ao_position_count = 1, ao_transaction_count = 0\<rparr>]"
  by code_simp

lemma school_depot_overview:
  "get_depot_overview (as_user 2) school =
     Inr [\<lparr>do_id = 7, do_cash = 750, do_cash_start = 1000,
           do_transaction_count = 3, do_position_count = 2,
           do_user_names = Some [Some ''Cem''], do_user_ids = Some [3],
           do_all_ids = [3], do_monthly_budget = Some 250\<rparr>,
          \<lparr>do_id = 8, do_cash = 500, do_cash_start = 500,
           do_transaction_count = 0, do_position_count = 1,
           do_user_names = Some [Some ''Cem'', None],
           do_user_ids = Some [3, 4], do_all_ids = [3, 4],
           do_monthly_budget = Some 250\<rparr>]"
  by code_simp


theorem overview_counts_exact_witness:
  "distinct (map d_id (depots school)) \<and> distinct (map pos_id (positions school))
   \<and> distinct (map t_id (transactions school))
   \<and> map (\<lambda>r. (ao_id r, ao_depot_count r, ao_position_count r, ao_transaction_count r))
         (case get_admin_overview (as_user 1) school of Inl e \<Rightarrow> [] | Inr rows \<Rightarrow> rows)
       = [(1, 0, 0, 0), (2, 0, 0, 0), (3, 2, 3, 3), (4, 1, 1, 0)]
   \<and> map (\<lambda>u. (u, length (user_depots school u), length (user_positions school u),
                 length (user_transactions school u))) [1, 2, 3, 4]
       = [(1, 0, 0, 0), (2, 0, 0, 0), (3, 2, 3, 3), (4, 1, 1, 0)]
   \<and> map (\<lambda>r. (do_id r, do_transaction_count r, do_position_count r))
         (case get_depot_overview (as_user 2) school of Inl e \<Rightarrow> [] | Inr rows \<Rightarrow> rows)
       = [(7, 3, 2), (8, 0, 1)]
   \<and> map (\<lambda>i. (i, length (depot_transactions school i), length (depot_positions school i)))
         [7, 8]
       = [(7, 3, 2), (8, 0, 1)]"
proof -
  have d: "distinct (map d_id (depots school))" "distinct (map pos_id (positions school))"
    "distinct (map t_id (transactions school))"
    by (simp_all add: school_def)
  obtain urows where ur: "get_admin_overview (as_user 1) school = Inr urows"
    using school_admin_overview by blast
  note ue = ur [unfolded school_admin_overview, simplified]
  from overview_counts_exact [of "as_user 1" school urows "[]"] ur d
  have "\<forall>r \<in> set urows.
          ao_depot_count r = length (user_depots school (ao_id r))
          \<and> ao_position_count r = length (user_positions school (ao_id r))
          \<and> ao_transaction_count r = length (user_transactions school (ao_id r))"
    by blast
  with ue
  have u: "length (user_depots school 1) = 0 \<and> length (user_positions school 1) = 0
           \<and> length (user_transactions school 1) = 0
           \<and> length (user_depots school 2) = 0 \<and> length (user_positions school 2) = 0
           \<and> length (user_transactions school 2) = 0
           \<and> length (user_depots school 3) = 2 \<and> length (user_positions school 3) = 3
           \<and> length (user_transactions school 3) = 3
           \<and> length (user_depots school 4) = 1 \<and> length (user_positions school 4) = 1
           \<and> length (user_transactions school 4) = 0"
    by auto
  obtain drows where dr: "get_depot_overview (as_user 2) school = Inr drows"
    using school_depot_overview by blast
  note de = dr [unfolded school_depot_overview, simplified]
  from overview_counts_exact [of "as_user 2" school "[]" drows] dr d
  have "\<forall>r \<in> set drows.
          do_transaction_count r = length (depot_transactions school (do_id r))
          \<and> do_position_count r = length (depot_positions school (do_id r))"
    by blast
  with de
  have v: "length (depot_transactions school 7) = 3 \<and> length (depot_positions school 7) = 2
           \<and> length (depot_transactions school 8) = 0 \<and> length (depot_positions school 8) = 1"
    by auto
  have a: "map (\<lambda>r. (ao_id r, ao_depot_count r, ao_position_count r, ao_transaction_count r))
              (case get_admin_overview (as_user 1) school of Inl e \<Rightarrow> [] | Inr rows \<Rightarrow> rows)
            = [(1, 0, 0, 0), (2, 0, 0, 0), (3, 2, 3, 3), (4, 1, 1, 0)]"
    unfolding school_admin_overview by simp
  have b: "map (\<lambda>r. (do_id r, do_transaction_count r, do_position_count r))
              (case get_depot_overview (as_user 2) school of Inl e \<Rightarrow> [] | Inr rows \<Rightarrow> rows)
            = [(7, 3, 2), (8, 0, 1)]"
    unfolding school_depot_overview by simp
  from u v d a b show ?thesis by simp
qed

end
